theory Spec2Isabelle
  imports Complex_Main
begin

section \<open>JavaScript values\<close>

text \<open>
  A JavaScript number is an IEEE double. The model keeps the three non-finite values the
  code can produce and test for (\<open>NaN\<close>, \<open>Infinity\<close>, \<open>-Infinity\<close>) and takes the
  finite ones as reals. The result of an arithmetic operation overflows to an infinity
  when its magnitude reaches \<open>OVERFLOW\<close>, the point from which rounding to nearest no
  longer gives the largest double. Rounding below that point, underflow and the sign of
  zero are not modelled.
\<close>

datatype jsnum = Fin real | PInf | NInf | NaN

definition OVERFLOW :: real where
  "OVERFLOW = 2 ^ 1024 - 2 ^ 970"

definition fin :: "real \<Rightarrow> jsnum" where
  "fin x = (if OVERFLOW \<le> x then PInf else if x \<le> - OVERFLOW then NInf else Fin x)"

fun jneg :: "jsnum \<Rightarrow> jsnum" where
  "jneg (Fin a) = Fin (- a)"
| "jneg PInf = NInf"
| "jneg NInf = PInf"
| "jneg NaN = NaN"

fun jadd :: "jsnum \<Rightarrow> jsnum \<Rightarrow> jsnum" where
  "jadd (Fin a) (Fin b) = fin (a + b)"
| "jadd NaN _ = NaN"
| "jadd _ NaN = NaN"
| "jadd PInf NInf = NaN"
| "jadd NInf PInf = NaN"
| "jadd PInf _ = PInf"
| "jadd _ PInf = PInf"
| "jadd NInf _ = NInf"
| "jadd _ NInf = NInf"

definition jsub :: "jsnum \<Rightarrow> jsnum \<Rightarrow> jsnum" where
  "jsub a b = jadd a (jneg b)"

text \<open>The sign of a number: \<open>Some True\<close> positive, \<open>Some False\<close> negative, \<open>None\<close> zero or NaN.\<close>

fun jsign :: "jsnum \<Rightarrow> bool option" where
  "jsign (Fin a) = (if a > 0 then Some True else if a < 0 then Some False else None)"
| "jsign PInf = Some True"
| "jsign NInf = Some False"
| "jsign NaN = None"

definition signed_inf :: "bool \<Rightarrow> jsnum" where
  "signed_inf pos = (if pos then PInf else NInf)"

fun jmul :: "jsnum \<Rightarrow> jsnum \<Rightarrow> jsnum" where
  "jmul (Fin a) (Fin b) = fin (a * b)"
| "jmul NaN _ = NaN"
| "jmul _ NaN = NaN"
| "jmul a b =
     (case (jsign a, jsign b) of
        (Some p, Some q) \<Rightarrow> signed_inf (p = q)
      | _ \<Rightarrow> NaN)"

fun jdiv :: "jsnum \<Rightarrow> jsnum \<Rightarrow> jsnum" where
  "jdiv NaN _ = NaN"
| "jdiv _ NaN = NaN"
| "jdiv (Fin a) (Fin b) =
     (if b \<noteq> 0 then fin (a / b)
      else (case jsign (Fin a) of None \<Rightarrow> NaN | Some p \<Rightarrow> signed_inf p))"
| "jdiv (Fin a) _ = Fin 0"
| "jdiv a (Fin b) =
     (case jsign a of None \<Rightarrow> NaN | Some p \<Rightarrow> signed_inf (p = (b \<ge> 0)))"
| "jdiv _ _ = NaN"

fun jabs :: "jsnum \<Rightarrow> jsnum" where
  "jabs (Fin a) = Fin \<bar>a\<bar>"
| "jabs PInf = PInf"
| "jabs NInf = PInf"
| "jabs NaN = NaN"

text \<open>\<open>a < b\<close>; every comparison with NaN is false.\<close>

fun jlt :: "jsnum \<Rightarrow> jsnum \<Rightarrow> bool" where
  "jlt (Fin a) (Fin b) = (a < b)"
| "jlt NaN _ = False"
| "jlt _ NaN = False"
| "jlt _ NInf = False"
| "jlt PInf _ = False"
| "jlt _ _ = True"

definition jgt :: "jsnum \<Rightarrow> jsnum \<Rightarrow> bool" where
  "jgt a b = jlt b a"

text \<open>\<open>Math.min\<close> and \<open>Math.max\<close> of two numbers: NaN as soon as one argument is NaN.\<close>

definition jmin :: "jsnum \<Rightarrow> jsnum \<Rightarrow> jsnum" where
  "jmin a b = (if a = NaN \<or> b = NaN then NaN else if jlt b a then b else a)"

definition jmax :: "jsnum \<Rightarrow> jsnum \<Rightarrow> jsnum" where
  "jmax a b = (if a = NaN \<or> b = NaN then NaN else if jlt a b then b else a)"

fun jsqrt :: "jsnum \<Rightarrow> jsnum" where
  "jsqrt (Fin a) = (if a < 0 then NaN else Fin (sqrt a))"
| "jsqrt PInf = PInf"
| "jsqrt NInf = NaN"
| "jsqrt NaN = NaN"

text \<open>
  The values a caller can pass where the code expects a number or an array of numbers.
  \<open>JVec\<close> is a \<open>ComplexityVector\<close> instance (its \<open>data\<close>), \<open>JObj\<close> any other object.
\<close>

datatype jsval =
    JUndefined
  | JNull
  | JBool bool
  | JNum jsnum
  | JStr string
  | JArr "jsval list"
  | JVec "real list"
  | JObj

text \<open>Reading an array at an index: \<open>undefined\<close> out of range.\<close>

definition elem_at :: "jsval list \<Rightarrow> nat \<Rightarrow> jsval" where
  "elem_at xs i = (if i < length xs then xs ! i else JUndefined)"

text \<open>
  Reading an array of numbers at an index inside an arithmetic expression: out of range
  the read is \<open>undefined\<close>, which arithmetic turns into NaN.
\<close>

definition num_at :: "real list \<Rightarrow> nat \<Rightarrow> jsnum" where
  "num_at xs i = (if i < length xs then Fin (xs ! i) else NaN)"

definition jnum_at :: "jsnum list \<Rightarrow> nat \<Rightarrow> jsnum" where
  "jnum_at xs i = (if i < length xs then xs ! i else NaN)"

text \<open>\<open>xs.map((v, i) => f(v, i))\<close>\<close>

definition mapi :: "('a \<Rightarrow> nat \<Rightarrow> 'b) \<Rightarrow> 'a list \<Rightarrow> 'b list" where
  "mapi f xs = map (\<lambda>(i, v). f v i) (enumerate 0 xs)"

section \<open>Errors\<close>

datatype error =
    ComponentNotANumber nat      \<comment> \<open>\<open>Component i is not a number\<close>\<close>
  | ComponentOutOfRange nat      \<comment> \<open>\<open>Component i out of range [0,1]\<close>\<close>
  | InvalidVectorType            \<comment> \<open>\<open>Invalid vector type\<close>\<close>
  | WeightsLength                \<comment> \<open>\<open>Weights must be array of length 4\<close>\<close>
  | InvalidImportData            \<comment> \<open>\<open>Invalid import data\<close>\<close>
  | InvalidVectorInput           \<comment> \<open>\<open>Invalid vector input\<close>\<close>
  | InvalidPillar string         \<comment> \<open>\<open>Invalid pillar: ...\<close>\<close>
  | TypeError                    \<comment> \<open>raised by the runtime, e.g. spreading a non-iterable\<close>
  | RangeError                   \<comment> \<open>raised by the runtime for a call with too many arguments\<close>

section \<open>ComplexityVector\<close>

text \<open>
  A \<open>ComplexityVector\<close> object is its \<open>data\<close> array; \<open>labels\<close> and \<open>keys\<close> are the
  same constants in every instance. The constructor stores only values that passed
  \<open>validate\<close>, which are finite numbers, so \<open>data\<close> is a list of reals.
\<close>

type_synonym cvec = "real list"

definition EPSILON :: real where
  "EPSILON = 1 / 1000000"

definition keys :: "string list" where
  "keys = [''alg'', ''info'', ''dyn'', ''geom'']"

text \<open>
  One round of the \<open>forEach\<close> in \<open>validate\<close>: the type test first, then the range test.
  The value is returned as the real it is once both tests pass.
\<close>

fun validate_component :: "nat \<Rightarrow> jsval \<Rightarrow> error + real" where
  "validate_component i (JNum (Fin x)) =
     (if x < 0 \<or> x > 1 then Inl (ComponentOutOfRange i) else Inr x)"
| "validate_component i (JNum NaN) = Inl (ComponentNotANumber i)"
| "validate_component i (JNum PInf) = Inl (ComponentOutOfRange i)"
| "validate_component i (JNum NInf) = Inl (ComponentOutOfRange i)"
| "validate_component i _ = Inl (ComponentNotANumber i)"

fun validate_from :: "nat \<Rightarrow> jsval list \<Rightarrow> error + real list" where
  "validate_from i [] = Inr []"
| "validate_from i (v # vs) =
     (case validate_component i v of
        Inl e \<Rightarrow> Inl e
      | Inr x \<Rightarrow>
          (case validate_from (Suc i) vs of
             Inl e \<Rightarrow> Inl e
           | Inr xs \<Rightarrow> Inr (x # xs)))"

definition validate :: "jsval list \<Rightarrow> error + real list" where
  "validate values = validate_from 0 values"

text \<open>A parameter with default value 0.5: the default replaces \<open>undefined\<close> only.\<close>

definition param :: "jsval list \<Rightarrow> nat \<Rightarrow> jsval" where
  "param args i = (if elem_at args i = JUndefined then JNum (Fin 0.5) else elem_at args i)"

text \<open>
  \<open>new ComplexityVector(...args)\<close>: the four parameters take the first four arguments;
  when the first one is an array it is destructured into the four (without defaults).
  An array that a caller passes to be spread is taken to be short enough for the engine to
  accept its elements as the arguments of one call.
\<close>

definition new_ComplexityVector :: "jsval list \<Rightarrow> error + cvec" where
  "new_ComplexityVector args =
     (case param args 0 of
        JArr xs \<Rightarrow> validate [elem_at xs 0, elem_at xs 1, elem_at xs 2, elem_at xs 3]
      | alg \<Rightarrow> validate [alg, param args 1, param args 2, param args 3])"

definition nums :: "real list \<Rightarrow> jsval list" where
  "nums xs = map (\<lambda>x. JNum (Fin x)) xs"

definition jnums :: "jsnum list \<Rightarrow> jsval list" where
  "jnums xs = map JNum xs"

definition toArray :: "cvec \<Rightarrow> real list" where
  "toArray this = this"

definition clone :: "cvec \<Rightarrow> error + cvec" where
  "clone this = new_ComplexityVector (nums this)"

text \<open>\<open>keys.indexOf(key)\<close>, \<open>None\<close> for -1.\<close>

fun indexOf :: "string list \<Rightarrow> string \<Rightarrow> nat option" where
  "indexOf [] k = None"
| "indexOf (x # xs) k = (if x = k then Some 0 else map_option Suc (indexOf xs k))"

text \<open>\<open>get(key)\<close>: \<open>None\<close> is the \<open>null\<close> returned for an unknown key.\<close>

definition get :: "cvec \<Rightarrow> string \<Rightarrow> jsnum option" where
  "get this key = (case indexOf keys key of Some i \<Rightarrow> Some (num_at this i) | None \<Rightarrow> None)"

text \<open>
  \<open>set(key, value)\<close>, returning the vector after the assignment. \<open>validate(value)\<close>
  is a single round of the \<open>forEach\<close>, at index 0. An unknown key changes nothing.
\<close>

definition set_component :: "cvec \<Rightarrow> string \<Rightarrow> jsval \<Rightarrow> error + cvec" where
  "set_component this key v =
     (case indexOf keys key of
        Some i \<Rightarrow>
          (case validate_component 0 v of
             Inl e \<Rightarrow> Inl e
           | Inr x \<Rightarrow> Inr (this[i := x]))
      | None \<Rightarrow> Inr this)"

definition clamp01 :: "jsnum \<Rightarrow> jsnum" where
  "clamp01 x = jmax (Fin 0) (jmin (Fin 1) x)"

definition add :: "cvec \<Rightarrow> cvec \<Rightarrow> error + cvec" where
  "add this other =
     new_ComplexityVector
       (jnums (mapi (\<lambda>v i. clamp01 (jadd (Fin v) (num_at other i))) this))"

definition subtract :: "cvec \<Rightarrow> cvec \<Rightarrow> error + cvec" where
  "subtract this other =
     new_ComplexityVector
       (jnums (map clamp01 (mapi (\<lambda>v i. jsub (Fin v) (num_at other i)) this)))"

definition scale :: "cvec \<Rightarrow> jsnum \<Rightarrow> error + cvec" where
  "scale this factor =
     new_ComplexityVector (jnums (map (\<lambda>v. clamp01 (jmul (Fin v) factor)) this))"

text \<open>
  \<open>equals(other, epsilon)\<close> for a vector \<open>other\<close> (the guard against a missing
  \<open>other\<close> cannot fire on a \<open>cvec\<close>): every component of \<open>this\<close> is within
  \<open>epsilon\<close> of the component of \<open>other\<close> at the same index; a missing component
  compares false. The default tolerance is \<open>EPSILON\<close>.
\<close>

definition equals :: "cvec \<Rightarrow> cvec \<Rightarrow> real \<Rightarrow> bool" where
  "equals this other epsilon =
     list_all (\<lambda>b. b)
       (mapi (\<lambda>v i. jlt (jabs (jsub (Fin v) (num_at other i))) (Fin epsilon)) this)"

text \<open>The vectors the constructor produces: four components, each in \<open>[0,1]\<close>.\<close>

definition in_unit :: "real \<Rightarrow> bool" where
  "in_unit x = (0 \<le> x \<and> x \<le> 1)"

definition valid_vector :: "cvec \<Rightarrow> bool" where
  "valid_vector v = (length v = 4 \<and> list_all in_unit v)"

section \<open>ComplexityMath\<close>

definition DEFAULT_WEIGHTS :: "jsnum list" where
  "DEFAULT_WEIGHTS = [Fin 0.25, Fin 0.25, Fin 0.25, Fin 0.25]"

definition SIGNAL_LOSS_THRESHOLD :: real where
  "SIGNAL_LOSS_THRESHOLD = 0.01"

text \<open>Sequencing of calls that may throw: the first error ends the computation.\<close>

definition bind_err :: "error + 'a \<Rightarrow> ('a \<Rightarrow> error + 'b) \<Rightarrow> error + 'b" where
  "bind_err m f = (case m of Inl e \<Rightarrow> Inl e | Inr x \<Rightarrow> f x)"

text \<open>\<open>w.reduce((a, b) => a + b, 0)\<close>\<close>

definition jsum :: "jsnum list \<Rightarrow> jsnum" where
  "jsum w = foldl jadd (Fin 0) w"

text \<open>\<open>arr.reduce((sum, val, idx) => sum + val * w[idx], 0)\<close>\<close>

definition weighted_sum :: "real list \<Rightarrow> jsnum list \<Rightarrow> jsnum" where
  "weighted_sum arr w =
     foldl (\<lambda>sum (idx, val). jadd sum (jmul (Fin val) (jnum_at w idx))) (Fin 0)
       (enumerate 0 arr)"

text \<open>
  The body shared by \<open>ComplexityMath.computeScalarAverage\<close> and
  \<open>ComplexityState.getScalar\<close>, which are the same code from the weights on.
\<close>

definition scalar_of :: "real list \<Rightarrow> jsnum list \<Rightarrow> jsnum" where
  "scalar_of arr w =
     (let sum = jsum w in
      if jgt (jabs (jsub sum (Fin 1))) (Fin EPSILON)
      then weighted_sum arr (map (\<lambda>wi. jdiv wi sum) w)
      else weighted_sum arr w)"

text \<open>
  \<open>computeScalarAverage(vector, weights = null)\<close>. Its guard against a missing vector
  cannot fire on an argument of type \<open>cvec\<close>; \<open>None\<close> is the \<open>null\<close> weights.
\<close>

definition computeScalarAverage :: "cvec \<Rightarrow> jsnum list option \<Rightarrow> jsnum" where
  "computeScalarAverage v weights_arg =
     (let w = (case weights_arg of None \<Rightarrow> DEFAULT_WEIGHTS | Some w \<Rightarrow> w)
      in scalar_of (toArray v) w)"

definition applyImprovement :: "cvec \<Rightarrow> string \<Rightarrow> jsnum \<Rightarrow> error + cvec" where
  "applyImprovement v pillar delta =
     bind_err (clone v) (\<lambda>improved.
       case get improved pillar of
         None \<Rightarrow> Inl (InvalidPillar pillar)
       | Some current \<Rightarrow>
           set_component improved pillar (JNum (clamp01 (jadd current delta))))"

datatype loss_type = cancellation | inversion | invisibility | compression | none

definition categorizeLoss :: "jsnum list \<Rightarrow> jsnum \<Rightarrow> loss_type" where
  "categorizeLoss vectorDelta scalarDelta =
     (let hasPositive = list_ex (\<lambda>d. jgt d (Fin EPSILON)) vectorDelta;
          hasNegative = list_ex (\<lambda>d. jlt d (Fin (- EPSILON))) vectorDelta
      in if hasPositive \<and> hasNegative \<and> jlt (jabs scalarDelta) (Fin EPSILON)
         then cancellation
         else if hasPositive \<and> jlt scalarDelta (Fin (- EPSILON)) then inversion
         else if hasPositive \<and> jlt (jabs scalarDelta) (Fin EPSILON) then invisibility
         else if jgt (jabs scalarDelta) (Fin EPSILON) then
           (let vectorMagnitude =
                  jsqrt (foldl (\<lambda>s d. jadd s (jmul d d)) (Fin 0) vectorDelta)
            in if jlt (jabs scalarDelta) (jdiv vectorMagnitude (Fin 2))
               then compression else none)
         else none)"

record signal_loss =
  total :: jsnum
  byPillar :: "string \<rightharpoonup> jsnum"
  scalarChange :: jsnum
  vectorChanges :: "jsnum list"
  isSignalLost :: bool
  lossType :: loss_type

text \<open>\<open>keys[i]\<close> as a property name: \<open>undefined\<close> out of range.\<close>

definition key_name :: "nat \<Rightarrow> string" where
  "key_name i = (if i < length keys then keys ! i else ''undefined'')"

text \<open>One round of the \<open>forEach\<close> over \<open>vectorDelta\<close>, on \<open>(lostSignals, totalLoss)\<close>.\<close>

definition lost_signal_step ::
  "jsnum \<Rightarrow> (string \<rightharpoonup> jsnum) \<times> jsnum \<Rightarrow> nat \<times> jsnum \<Rightarrow> (string \<rightharpoonup> jsnum) \<times> jsnum" where
  "lost_signal_step scalarDelta acc x =
     (case (acc, x) of ((lostSignals, totalLoss), (i, delta)) \<Rightarrow>
        if jgt delta (Fin 0) \<and> jlt (jabs scalarDelta) (Fin SIGNAL_LOSS_THRESHOLD)
        then (lostSignals(key_name i \<mapsto> delta), jadd totalLoss delta)
        else if jgt delta (Fin 0) \<and> jlt scalarDelta (Fin 0)
        then (lostSignals(key_name i \<mapsto> delta), jadd totalLoss delta)
        else (lostSignals, totalLoss))"

definition calculateSignalLoss :: "cvec \<Rightarrow> cvec \<Rightarrow> jsnum list option \<Rightarrow> signal_loss" where
  "calculateSignalLoss before after weights_arg =
     (let beforeArr = toArray before;
          afterArr = toArray after;
          vectorDelta = mapi (\<lambda>v i. jsub (Fin v) (num_at beforeArr i)) afterArr;
          scalarBefore = computeScalarAverage before weights_arg;
          scalarAfter = computeScalarAverage after weights_arg;
          scalarDelta = jsub scalarAfter scalarBefore;
          (lostSignals, totalLoss) =
             foldl (lost_signal_step scalarDelta) (Map.empty, Fin 0) (enumerate 0 vectorDelta)
      in \<lparr> total = totalLoss,
           byPillar = lostSignals,
           scalarChange = scalarDelta,
           vectorChanges = vectorDelta,
           isSignalLost = jgt totalLoss (Fin SIGNAL_LOSS_THRESHOLD),
           lossType = categorizeLoss vectorDelta scalarDelta \<rparr>)"

text \<open>
  A \<open>deltas\<close> object maps pillar names to step sizes. Reading a name that is not there
  gives \<open>undefined\<close>, which the arithmetic that uses it turns into NaN.
\<close>

type_synonym deltas_obj = "string \<rightharpoonup> jsnum"

definition delta_of :: "deltas_obj \<Rightarrow> string \<Rightarrow> jsnum" where
  "delta_of d k = (case d k of None \<Rightarrow> NaN | Some x \<Rightarrow> x)"

record paradox_summary =
  scalarInitial :: jsnum
  scalarFinal :: jsnum
  vectorInitial :: "real list"
  vectorFinal :: "real list"
  totalDelta :: jsnum

record cycle =
  states :: "cvec list"
  operations :: "string list"
  paradox :: paradox_summary

definition generateCycle :: "cvec \<Rightarrow> deltas_obj \<Rightarrow> error + cycle" where
  "generateCycle initial d =
     bind_err (clone initial) (\<lambda>state0.
     bind_err (clone initial) (\<lambda>current0.
     bind_err (applyImprovement current0 ''alg'' (delta_of d ''alg'')) (\<lambda>current1.
     bind_err (clone current1) (\<lambda>state1.
     bind_err (applyImprovement current1 ''info'' (delta_of d ''info'')) (\<lambda>current2.
     bind_err (clone current2) (\<lambda>state2.
     bind_err (applyImprovement current2 ''dyn'' (delta_of d ''dyn'')) (\<lambda>current3.
     bind_err (clone current3) (\<lambda>state3.
     bind_err (applyImprovement current3 ''geom'' (delta_of d ''geom'')) (\<lambda>current4.
     bind_err (clone current4) (\<lambda>state4.
     bind_err (clone initial) (\<lambda>state5.
       Inr \<lparr> states = [state0, state1, state2, state3, state4, state5],
             operations = [''Optimize Algorithm'', ''Add Correlations'',
                           ''Increase Dynamics'', ''Enrich Topology'', ''Geometric Return''],
             paradox = \<lparr> scalarInitial = computeScalarAverage initial None,
                         scalarFinal = computeScalarAverage state4 None,
                         vectorInitial = toArray initial,
                         vectorFinal = toArray state4,
                         totalDelta =
                           jadd (jadd (jadd (delta_of d ''alg'') (delta_of d ''info''))
                                   (delta_of d ''dyn''))
                             (delta_of d ''geom'') \<rparr> \<rparr>)))))))))))"

section \<open>ComplexityState\<close>

definition DEFAULT_VECTOR :: "real list" where
  "DEFAULT_VECTOR = [0.5, 0.5, 0.5, 0.5]"

definition DEFAULT_DELTAS :: deltas_obj where
  "DEFAULT_DELTAS =
     [''alg'' \<mapsto> Fin 0.2, ''info'' \<mapsto> Fin 0.2, ''dyn'' \<mapsto> Fin 0.15, ''geom'' \<mapsto> Fin 0.3]"

definition MAX_HISTORY :: nat where
  "MAX_HISTORY = 100"

text \<open>
  An operation label: \<open>null\<close>, a string, or the template string built by \<open>improve\<close>,
  \<open>improve_<key>_<delta.toFixed(3)>\<close>, kept as its two parts (the key is \<open>None\<close> when
  \<open>keys[pillar]\<close> is \<open>undefined\<close>).
\<close>

datatype operation = OpNull | OpLabel string | OpImprove "string option" jsnum

text \<open>The update passed to observers, one case for each \<open>type\<close> tag.\<close>

datatype event =
    VectorUpdate cvec operation int
  | WeightsUpdate "jsnum list" int
  | DeltasUpdate deltas_obj int
  | UndoEvent cvec int
  | ImportEvent int
  | ManualUpdate int

text \<open>
  A history entry. \<open>addToHistory\<close> writes all five fields; \<open>import\<close> writes three, and
  the other two are then absent (\<open>None\<close>).
\<close>

record hentry =
  h_vector :: cvec
  h_operation :: operation
  h_timestamp :: int
  h_scalar :: "jsnum option"
  h_operationIndex :: "nat option"

text \<open>
  The state object. An observer is a callback; the model names it by a number and records
  every call made to it, with the update it received, in \<open>notified\<close>. What a callback
  does is outside the model, and an exception it raises is caught by \<open>notify\<close>.
  \<open>maxHistory\<close> is a number of entries.
\<close>

type_synonym observer = nat

record cstate =
  vector :: cvec
  history :: "hentry list"
  maxHistory :: nat
  weights :: "jsnum list"
  deltas :: deltas_obj
  observers :: "observer list"
  lastOperation :: operation
  currentScenario :: "string option"
  sessionStartTime :: int
  operationCount :: nat
  notified :: "(observer \<times> event) list"

text \<open>How a call of a method ends; the state the call leaves behind is returned beside it.\<close>

datatype outcome = Returned | Threw error

record config =
  c_initial :: "jsval list option"
  c_maxHistory :: "nat option"
  c_weights :: "jsnum list option"
  c_deltas :: "deltas_obj option"

text \<open>\<open>new ComplexityState(config)\<close> at clock reading \<open>now\<close>. \<open>x || d\<close> takes \<open>d\<close> when \<open>x\<close> is missing or 0.\<close>

definition new_ComplexityState :: "int \<Rightarrow> config \<Rightarrow> error + cstate" where
  "new_ComplexityState now cfg =
     bind_err
       (new_ComplexityVector
          (case c_initial cfg of None \<Rightarrow> nums DEFAULT_VECTOR | Some xs \<Rightarrow> xs))
       (\<lambda>v. Inr \<lparr> vector = v,
                  history = [],
                  maxHistory =
                    (case c_maxHistory cfg of
                       None \<Rightarrow> MAX_HISTORY
                     | Some n \<Rightarrow> if n = 0 then MAX_HISTORY else n),
                  weights = (case c_weights cfg of None \<Rightarrow> DEFAULT_WEIGHTS | Some w \<Rightarrow> w),
                  deltas = (case c_deltas cfg of None \<Rightarrow> DEFAULT_DELTAS | Some d \<Rightarrow> d),
                  observers = [],
                  lastOperation = OpNull,
                  currentScenario = None,
                  sessionStartTime = now,
                  operationCount = 0,
                  notified = [] \<rparr>)"

definition notify :: "event \<Rightarrow> cstate \<Rightarrow> cstate" where
  "notify update s = s\<lparr>notified := notified s @ map (\<lambda>ob. (ob, update)) (observers s)\<rparr>"

definition notifyObservers :: "int \<Rightarrow> event option \<Rightarrow> cstate \<Rightarrow> cstate" where
  "notifyObservers now update s =
     notify (case update of None \<Rightarrow> ManualUpdate now | Some u \<Rightarrow> u) s"

definition subscribe :: "observer \<Rightarrow> cstate \<Rightarrow> cstate" where
  "subscribe ob s = s\<lparr>observers := observers s @ [ob]\<rparr>"

text \<open>\<open>getScalar(vector = null, weights = null)\<close>\<close>

definition getScalar :: "cvec option \<Rightarrow> jsnum list option \<Rightarrow> cstate \<Rightarrow> jsnum" where
  "getScalar vector_arg weights_arg s =
     (let v = (case vector_arg of None \<Rightarrow> vector s | Some v \<Rightarrow> v);
          w = (case weights_arg of None \<Rightarrow> weights s | Some w \<Rightarrow> w)
      in scalar_of (toArray v) w)"

text \<open>\<open>history.push(e)\<close>, then \<open>history.shift()\<close> once when the length exceeds \<open>maxHistory\<close>.\<close>

definition push_bounded :: "nat \<Rightarrow> hentry list \<Rightarrow> hentry \<Rightarrow> hentry list" where
  "push_bounded m h e = (if length (h @ [e]) > m then tl (h @ [e]) else h @ [e])"

text \<open>\<open>addToHistory(vector, operation)\<close> at clock reading \<open>now\<close>.\<close>

definition addToHistory :: "int \<Rightarrow> cvec \<Rightarrow> operation \<Rightarrow> cstate \<Rightarrow> outcome \<times> cstate" where
  "addToHistory now v operation s =
     (case clone v of
        Inl e \<Rightarrow> (Threw e, s)
      | Inr snapshot \<Rightarrow>
          (Returned,
           s\<lparr>history := push_bounded (maxHistory s) (history s)
                \<lparr> h_vector = snapshot,
                  h_operation = operation,
                  h_timestamp = now,
                  h_scalar = Some (getScalar (Some v) None s),
                  h_operationIndex = Some (operationCount s) \<rparr>\<rparr>))"

text \<open>
  \<open>updateVector(newVector, operation = null)\<close>; \<open>t_hist\<close> and \<open>t_event\<close> are the two
  clock readings, for the history entry and for the notification.
\<close>

definition updateVector ::
  "int \<Rightarrow> int \<Rightarrow> jsval \<Rightarrow> operation \<Rightarrow> cstate \<Rightarrow> outcome \<times> cstate" where
  "updateVector t_hist t_event newVector operation s =
     (case clone (vector s) of
        Inl e \<Rightarrow> (Threw e, s)
      | Inr copy \<Rightarrow>
          (case addToHistory t_hist copy operation s of
             (Threw e, s1) \<Rightarrow> (Threw e, s1)
           | (Returned, s1) \<Rightarrow>
               (case (case newVector of
                        JArr xs \<Rightarrow> new_ComplexityVector xs
                      | JVec data \<Rightarrow> clone data
                      | _ \<Rightarrow> Inl InvalidVectorType) of
                  Inl e \<Rightarrow> (Threw e, s1)
                | Inr v \<Rightarrow>
                    (Returned,
                     notify (VectorUpdate v operation t_event)
                       (s1\<lparr>vector := v,
                           lastOperation := operation,
                           operationCount := operationCount s1 + 1\<rparr>)))))"

text \<open>
  The argument of \<open>updateWeights\<close>: an array of numbers, or something that is not an
  array. Arrays with entries that are not numbers are outside the model.
\<close>

datatype weights_arg = WeightArray "jsnum list" | NotAnArray

definition updateWeights :: "int \<Rightarrow> weights_arg \<Rightarrow> cstate \<Rightarrow> outcome \<times> cstate" where
  "updateWeights now newWeights s =
     (case newWeights of
        NotAnArray \<Rightarrow> (Threw WeightsLength, s)
      | WeightArray ws \<Rightarrow>
          if length ws \<noteq> 4 then (Threw WeightsLength, s)
          else
            (let sum = jsum ws;
                 s1 = s\<lparr>weights := map (\<lambda>w. jdiv w sum) ws\<rparr>
             in (Returned, notify (WeightsUpdate (weights s1) now) s1)))"

text \<open>\<open>{ ...this.deltas, ...newDeltas }\<close>\<close>

definition updateDeltas :: "int \<Rightarrow> deltas_obj \<Rightarrow> cstate \<Rightarrow> cstate" where
  "updateDeltas now newDeltas s =
     (let s1 = s\<lparr>deltas := deltas s ++ newDeltas\<rparr>
      in notify (DeltasUpdate (deltas s1) now) s1)"

text \<open>
  Reading and writing an array at an index that may be any integer. A read outside the
  array is \<open>undefined\<close> (NaN in arithmetic). A write at a negative index sets a property
  that is no element, and so does a write at \<open>2^32 - 1\<close> or above, which is no array
  index; any other write past the end extends the array, the gap reading \<open>undefined\<close>
  when the array is spread.
\<close>

definition num_at_int :: "real list \<Rightarrow> int \<Rightarrow> jsnum" where
  "num_at_int xs i = (if 0 \<le> i \<and> nat i < length xs then Fin (xs ! nat i) else NaN)"

definition key_at_int :: "int \<Rightarrow> string option" where
  "key_at_int i = (if 0 \<le> i \<and> nat i < length keys then Some (keys ! nat i) else None)"

definition array_set :: "jsval list \<Rightarrow> int \<Rightarrow> jsval \<Rightarrow> jsval list" where
  "array_set xs i v =
     (if i < 0 \<or> 4294967295 \<le> i then xs
      else if nat i < length xs then xs[nat i := v]
      else xs @ replicate (nat i - length xs) JUndefined @ [v])"

text \<open>
  \<open>new ComplexityVector(...updated)\<close> in \<open>improve\<close>, where the code itself makes the
  length of the array, from the pillar index. The elements of the array become the
  arguments of the call, and an engine accepts only so many: \<open>arg_limit\<close> is the largest
  number of arguments it accepts in one call, and a longer array makes the call throw a
  \<open>RangeError\<close>.
\<close>

definition spread_new_ComplexityVector :: "nat \<Rightarrow> jsval list \<Rightarrow> error + cvec" where
  "spread_new_ComplexityVector arg_limit xs =
     (if arg_limit < length xs then Inl RangeError else new_ComplexityVector xs)"

text \<open>\<open>improve(pillar, delta)\<close> on an engine with the argument limit \<open>arg_limit\<close>.\<close>

definition improve ::
  "nat \<Rightarrow> int \<Rightarrow> int \<Rightarrow> int \<Rightarrow> jsnum \<Rightarrow> cstate \<Rightarrow> outcome \<times> cstate" where
  "improve arg_limit t_hist t_event pillar delta s =
     (let current = toArray (vector s);
          updated = array_set (nums current) pillar
                      (JNum (clamp01 (jadd (num_at_int current pillar) delta)))
      in case spread_new_ComplexityVector arg_limit updated of
           Inl e \<Rightarrow> (Threw e, s)
         | Inr v \<Rightarrow>
             updateVector t_hist t_event (JVec v) (OpImprove (key_at_int pillar) delta) s)"

text \<open>\<open>reset(initial = DEFAULT_VECTOR)\<close>: the default replaces \<open>undefined\<close>.\<close>

definition reset :: "int \<Rightarrow> int \<Rightarrow> jsval \<Rightarrow> cstate \<Rightarrow> outcome \<times> cstate" where
  "reset t_hist t_event initial s =
     updateVector t_hist t_event
       (if initial = JUndefined then JArr (nums DEFAULT_VECTOR) else initial)
       (OpLabel ''reset'')
       (s\<lparr>history := [], operationCount := 0, lastOperation := OpNull\<rparr>)"

text \<open>\<open>undo()\<close>: the boolean it returns, or the error of the \<open>clone\<close>.\<close>

definition undo :: "int \<Rightarrow> cstate \<Rightarrow> (error + bool) \<times> cstate" where
  "undo now s =
     (if length (history s) > 0 then
        (let previous = last (history s);
             s1 = s\<lparr>history := butlast (history s)\<rparr>
         in case clone (h_vector previous) of
              Inl e \<Rightarrow> (Inl e, s1)
            | Inr v \<Rightarrow>
                (Inr True,
                 notify (UndoEvent v now)
                   (s1\<lparr>vector := v,
                       lastOperation := OpLabel ''undo'',
                       operationCount := operationCount s1 + 1\<rparr>)))
      else (Inr False, s))"

subsection \<open>Export and import\<close>

record pentry =
  pe_vector :: "jsval list"
  pe_operation :: operation
  pe_timestamp :: int

record pmeta =
  m_sessionStartTime :: "int option"
  m_operationCount :: "nat option"
  m_exportTime :: "int option"

text \<open>The payload; \<open>None\<close> is a field that is missing.\<close>

record payload =
  p_vector :: "jsval list"
  p_weights :: "jsnum list option"
  p_deltas :: "deltas_obj option"
  p_history :: "pentry list option"
  p_metadata :: "pmeta option"

definition export :: "int \<Rightarrow> cstate \<Rightarrow> payload" where
  "export now s =
     \<lparr> p_vector = nums (toArray (vector s)),
       p_weights = Some (weights s),
       p_deltas = Some (deltas s),
       p_history = Some (map (\<lambda>h. \<lparr> pe_vector = nums (toArray (h_vector h)),
                                      pe_operation = h_operation h,
                                      pe_timestamp = h_timestamp h \<rparr>) (history s)),
       p_metadata = Some \<lparr> m_sessionStartTime = Some (sessionStartTime s),
                            m_operationCount = Some (operationCount s),
                            m_exportTime = Some now \<rparr> \<rparr>"

text \<open>The \<open>map\<close> over \<open>data.history\<close>: the first entry that fails to construct ends it.\<close>

fun import_history :: "pentry list \<Rightarrow> error + hentry list" where
  "import_history [] = Inr []"
| "import_history (h # hs) =
     bind_err (new_ComplexityVector (pe_vector h)) (\<lambda>v.
     bind_err (import_history hs) (\<lambda>rest.
       Inr (\<lparr> h_vector = v,
              h_operation = pe_operation h,
              h_timestamp = pe_timestamp h,
              h_scalar = None,
              h_operationIndex = None \<rparr> # rest)))"

text \<open>
  \<open>import(data)\<close>; \<open>t_start\<close> and \<open>t_event\<close> are the clock readings for the session
  start fallback and for the notification. The assignments made before an exception stay;
  the \<open>catch\<close> replaces the exception by \<open>Invalid import data\<close>.
\<close>

definition import_data :: "int \<Rightarrow> int \<Rightarrow> payload \<Rightarrow> cstate \<Rightarrow> outcome \<times> cstate" where
  "import_data t_start t_event data s =
     (case new_ComplexityVector (p_vector data) of
        Inl e \<Rightarrow> (Threw InvalidImportData, s)
      | Inr v \<Rightarrow>
          (let s1 = s\<lparr>vector := v\<rparr>;
               s2 = s1\<lparr>weights := (case p_weights data of None \<Rightarrow> DEFAULT_WEIGHTS | Some w \<Rightarrow> w)\<rparr>;
               s3 = s2\<lparr>deltas := (case p_deltas data of None \<Rightarrow> DEFAULT_DELTAS | Some d \<Rightarrow> d)\<rparr>
           in case import_history (case p_history data of None \<Rightarrow> [] | Some hs \<Rightarrow> hs) of
                Inl e \<Rightarrow> (Threw InvalidImportData, s3)
              | Inr hs \<Rightarrow>
                  (let s4 = s3\<lparr>history := hs\<rparr>;
                       s5 = s4\<lparr>sessionStartTime :=
                                 (case Option.bind (p_metadata data) m_sessionStartTime of
                                    None \<Rightarrow> t_start
                                  | Some t \<Rightarrow> if t = 0 then t_start else t)\<rparr>;
                       s6 = s5\<lparr>operationCount :=
                                 (case Option.bind (p_metadata data) m_operationCount of
                                    None \<Rightarrow> 0
                                  | Some n \<Rightarrow> n)\<rparr>
                   in (Returned, notify (ImportEvent t_event) s6))))"

text \<open>A client that makes a list of \<open>updateVector\<close> calls, one after the other.\<close>

record update_call =
  u_t_hist :: int
  u_t_event :: int
  u_newVector :: jsval
  u_operation :: operation

fun update_all :: "update_call list \<Rightarrow> cstate \<Rightarrow> outcome \<times> cstate" where
  "update_all [] s = (Returned, s)"
| "update_all (c # cs) s =
     (case updateVector (u_t_hist c) (u_t_event c) (u_newVector c) (u_operation c) s of
        (Threw e, s1) \<Rightarrow> (Threw e, s1)
      | (Returned, s1) \<Rightarrow> update_all cs s1)"

section \<open>Notions used to state the properties\<close>

text \<open>\<open>new ComplexityState()\<close>: the configuration \<open>{}\<close>.\<close>

definition empty_config :: config where
  "empty_config = \<lparr> c_initial = None, c_maxHistory = None, c_weights = None, c_deltas = None \<rparr>"

text \<open>
  The entry that \<open>updateVector\<close> logs in a state whose vector is valid (the two clones
  it takes on the way are then the vector itself).
\<close>

definition snapshot_entry :: "int \<Rightarrow> operation \<Rightarrow> cstate \<Rightarrow> hentry" where
  "snapshot_entry now operation s =
     \<lparr> h_vector = vector s,
       h_operation = operation,
       h_timestamp = now,
       h_scalar = Some (getScalar (Some (vector s)) None s),
       h_operationIndex = Some (operationCount s) \<rparr>"

text \<open>The state after the first statement of \<open>updateVector\<close>, the call of \<open>addToHistory\<close>.\<close>

definition logged :: "int \<Rightarrow> operation \<Rightarrow> cstate \<Rightarrow> cstate" where
  "logged now operation s =
     s\<lparr>history := push_bounded (maxHistory s) (history s) (snapshot_entry now operation s)\<rparr>"

text \<open>The vector that the \<open>if\<close> chain of \<open>updateVector\<close> builds from its argument.\<close>

definition vector_of_arg :: "jsval \<Rightarrow> error + cvec" where
  "vector_of_arg newVector =
     (case newVector of
        JArr xs \<Rightarrow> new_ComplexityVector xs
      | JVec data \<Rightarrow> clone data
      | _ \<Rightarrow> Inl InvalidVectorType)"

text \<open>The entries that a list of \<open>updateVector\<close> calls logs, in the order of the calls.\<close>

fun logged_entries :: "update_call list \<Rightarrow> cstate \<Rightarrow> hentry list" where
  "logged_entries [] s = []"
| "logged_entries (c # cs) s =
     snapshot_entry (u_t_hist c) (u_operation c) s
       # logged_entries cs
           (snd (updateVector (u_t_hist c) (u_t_event c) (u_newVector c) (u_operation c) s))"

text \<open>
  What the constructor establishes and every method keeps true of the state, whether it
  returns or throws: the current vector and the vectors in the history are valid, and the
  capacity is positive. The hypotheses on the state in the theorems below are parts of it.
\<close>

definition state_ok :: "cstate \<Rightarrow> bool" where
  "state_ok s =
     (valid_vector (vector s)
      \<and> list_all (\<lambda>h. valid_vector (h_vector h)) (history s)
      \<and> 0 < maxHistory s)"

text \<open>A weights tuple sums to 1 within \<open>EPSILON\<close>.\<close>

definition sums_to_one :: "jsnum list \<Rightarrow> bool" where
  "sums_to_one w = (case jsum w of Fin x \<Rightarrow> \<bar>x - 1\<bar> \<le> EPSILON | _ \<Rightarrow> False)"

subsection \<open>Example states and inputs\<close>

definition initial_state :: cstate where
  "initial_state = projr (new_ComplexityState 0 empty_config)"

definition updated_state :: cstate where
  "updated_state =
     snd (updateVector 1 2 (JArr (nums [0.8, 0.4, 0.6, 0.3])) OpNull initial_state)"

definition small_state :: cstate where
  "small_state = projr (new_ComplexityState 0 (empty_config\<lparr>c_maxHistory := Some 2\<rparr>))"

definition out_of_range_array :: jsval where
  "out_of_range_array = JArr [JNum (Fin 2), JNum (Fin 0.5), JNum (Fin 0.5), JNum (Fin 0.5)]"

definition bad_history_payload :: payload where
  "bad_history_payload =
     \<lparr> p_vector = nums [0.1, 0.1, 0.1, 0.1],
       p_weights = Some [Fin 1, Fin 0, Fin 0, Fin 0],
       p_deltas = None,
       p_history = Some [\<lparr> pe_vector = [JNum (Fin 2), JNum (Fin 0), JNum (Fin 0), JNum (Fin 0)],
                           pe_operation = OpNull, pe_timestamp = 0 \<rparr>],
       p_metadata = None \<rparr>"

definition two_entry_payload :: payload where
  "two_entry_payload =
     \<lparr> p_vector = nums [0.5, 0.5, 0.5, 0.5],
       p_weights = None,
       p_deltas = None,
       p_history = Some [\<lparr> pe_vector = nums [0.1, 0.1, 0.1, 0.1],
                           pe_operation = OpNull, pe_timestamp = 0 \<rparr>,
                         \<lparr> pe_vector = nums [0.2, 0.2, 0.2, 0.2],
                           pe_operation = OpNull, pe_timestamp = 1 \<rparr>],
       p_metadata = None \<rparr>"

definition overfull_state :: cstate where
  "overfull_state =
     snd (import_data 1 2 two_entry_payload
            (projr (new_ComplexityState 0 (empty_config\<lparr>c_maxHistory := Some 1\<rparr>))))"

definition one_update :: "update_call list" where
  "one_update = [\<lparr> u_t_hist = 3, u_t_event = 4,
                   u_newVector = JArr (nums [0.3, 0.3, 0.3, 0.3]),
                   u_operation = OpNull \<rparr>]"

definition three_updates :: "update_call list" where
  "three_updates =
     [\<lparr> u_t_hist = 1, u_t_event = 2, u_newVector = JArr (nums [0.1, 0.1, 0.1, 0.1]),
        u_operation = OpLabel ''first'' \<rparr>,
      \<lparr> u_t_hist = 3, u_t_event = 4, u_newVector = JArr (nums [0.2, 0.2, 0.2, 0.2]),
        u_operation = OpLabel ''second'' \<rparr>,
      \<lparr> u_t_hist = 5, u_t_event = 6, u_newVector = JArr (nums [0.3, 0.3, 0.3, 0.3]),
        u_operation = OpLabel ''third'' \<rparr>]"

section \<open>Properties of the numbers\<close>

lemma OVERFLOW_large: "1000 < OVERFLOW"
  by (simp add: OVERFLOW_def)

lemma fin_small [simp]: "\<bar>x\<bar> \<le> 1000 \<Longrightarrow> fin x = Fin x"
  using OVERFLOW_large by (auto simp: fin_def)

lemma fin_in_range: "\<bar>x\<bar> < OVERFLOW \<Longrightarrow> fin x = Fin x"
  by (auto simp: fin_def)

lemma fin_not_NaN [simp]: "fin x \<noteq> NaN"
  by (simp add: fin_def)

section \<open>Properties of ComplexityVector\<close>

lemma valid_vectorE:
  assumes "valid_vector v"
  obtains a b c d where "v = [a, b, c, d]" "in_unit a" "in_unit b" "in_unit c" "in_unit d"
proof -
  from assms have len: "length v = 4" and all: "list_all in_unit v"
    by (simp_all add: valid_vector_def)
  from len obtain a b c d where v: "v = [a, b, c, d]"
    by (auto simp: length_Suc_conv numeral_eq_Suc)
  with all that show thesis by simp
qed

lemma validate_from_props:
  "validate_from i vs = Inr xs \<Longrightarrow> length xs = length vs \<and> list_all in_unit xs"
proof (induction vs arbitrary: i xs)
  case Nil
  then show ?case by simp
next
  case (Cons v vs)
  from Cons.prems obtain x ys where
    x: "validate_component i v = Inr x" and ys: "validate_from (Suc i) vs = Inr ys"
    and xs: "xs = x # ys"
    by (auto split: sum.splits)
  from x have "in_unit x"
    by (cases "(i, v)" rule: validate_component.cases) (auto simp: in_unit_def split: if_splits)
  with Cons.IH[OF ys] xs show ?case by simp
qed

lemma new_ComplexityVector_validate:
  obtains vs where "length vs = 4" and "new_ComplexityVector args = validate_from 0 vs"
proof (cases "\<exists>xs. param args 0 = JArr xs")
  case True
  then obtain xs where "param args 0 = JArr xs" ..
  then have "new_ComplexityVector args =
      validate_from 0 [elem_at xs 0, elem_at xs 1, elem_at xs 2, elem_at xs 3]"
    by (simp add: new_ComplexityVector_def validate_def)
  then show thesis by (rule that[rotated]) simp
next
  case False
  then have "new_ComplexityVector args =
      validate_from 0 [param args 0, param args 1, param args 2, param args 3]"
    unfolding new_ComplexityVector_def validate_def
    by (cases "param args 0") (simp_all del: validate_from.simps)
  then show thesis by (rule that[rotated]) simp
qed

lemma new_ComplexityVector_valid:
  assumes "new_ComplexityVector args = Inr r"
  shows "valid_vector r"
proof -
  obtain vs where "length vs = 4" and "new_ComplexityVector args = validate_from 0 vs"
    by (rule new_ComplexityVector_validate)
  with assms validate_from_props[of 0 vs r] show ?thesis
    by (simp add: valid_vector_def)
qed

lemma new_ComplexityVector_nums:
  assumes "in_unit a" "in_unit b" "in_unit c" "in_unit d"
  shows "new_ComplexityVector [JNum (Fin a), JNum (Fin b), JNum (Fin c), JNum (Fin d)] = Inr [a, b, c, d]"
  using assms
  by (simp add: new_ComplexityVector_def param_def elem_at_def validate_def in_unit_def not_less)

lemma clamp01_Fin: "clamp01 (Fin x) = Fin (max 0 (min 1 x))"
  by (simp add: clamp01_def jmin_def jmax_def max_def min_def)

text \<open>Clamping absorbs an overflow.\<close>

lemma clamp01_fin: "clamp01 (fin x) = Fin (max 0 (min 1 x))"
proof -
  consider "OVERFLOW \<le> x" | "x \<le> - OVERFLOW" | "\<bar>x\<bar> < OVERFLOW"
    by linarith
  then show ?thesis
  proof cases
    case 1
    with OVERFLOW_large show ?thesis
      by (simp add: fin_def clamp01_def jmin_def jmax_def)
  next
    case 2
    with OVERFLOW_large show ?thesis
      by (simp add: fin_def clamp01_def jmin_def jmax_def)
  next
    case 3
    then show ?thesis
      by (simp add: fin_in_range clamp01_Fin)
  qed
qed

lemma in_unit_clamp: "in_unit (max 0 (min 1 x))"
  by (simp add: in_unit_def)

lemma mapi4: "mapi f [a, b, c, d] = [f a 0, f b (Suc 0), f c 2, f d 3]"
  by (simp add: mapi_def numeral_eq_Suc)

lemma num_at4:
  "num_at [a, b, c, d] 0 = Fin a" "num_at [a, b, c, d] (Suc 0) = Fin b"
  "num_at [a, b, c, d] 2 = Fin c" "num_at [a, b, c, d] 3 = Fin d"
  by (simp_all add: num_at_def numeral_eq_Suc)

lemma add_valid:
  assumes "valid_vector a" "valid_vector b"
  shows "\<exists>r. add a b = Inr r \<and> valid_vector r"
proof -
  from assms(1) obtain a0 a1 a2 a3 where a: "a = [a0, a1, a2, a3]" by (rule valid_vectorE)
  from assms(2) obtain b0 b1 b2 b3 where b: "b = [b0, b1, b2, b3]" by (rule valid_vectorE)
  have "add a b = Inr [max 0 (min 1 (a0 + b0)), max 0 (min 1 (a1 + b1)),
      max 0 (min 1 (a2 + b2)), max 0 (min 1 (a3 + b3))]"
    unfolding add_def a b
    by (simp add: mapi4 num_at4 clamp01_fin jnums_def new_ComplexityVector_nums in_unit_clamp)
  then show ?thesis
    by (simp add: valid_vector_def in_unit_clamp)
qed

lemma subtract_valid:
  assumes "valid_vector a" "valid_vector b"
  shows "\<exists>r. subtract a b = Inr r \<and> valid_vector r"
proof -
  from assms(1) obtain a0 a1 a2 a3 where a: "a = [a0, a1, a2, a3]" by (rule valid_vectorE)
  from assms(2) obtain b0 b1 b2 b3 where b: "b = [b0, b1, b2, b3]" by (rule valid_vectorE)
  have "subtract a b = Inr [max 0 (min 1 (a0 - b0)), max 0 (min 1 (a1 - b1)),
      max 0 (min 1 (a2 - b2)), max 0 (min 1 (a3 - b3))]"
    unfolding subtract_def a b
    by (simp add: mapi4 num_at4 jsub_def clamp01_fin jnums_def new_ComplexityVector_nums in_unit_clamp)
  then show ?thesis
    by (simp add: valid_vector_def in_unit_clamp)
qed

lemma scale_valid:
  assumes "valid_vector a"
  shows "\<exists>r. scale a (Fin f) = Inr r \<and> valid_vector r"
proof -
  from assms(1) obtain a0 a1 a2 a3 where a: "a = [a0, a1, a2, a3]" by (rule valid_vectorE)
  have "scale a (Fin f) = Inr [max 0 (min 1 (a0 * f)), max 0 (min 1 (a1 * f)),
      max 0 (min 1 (a2 * f)), max 0 (min 1 (a3 * f))]"
    unfolding scale_def a
    by (simp add: clamp01_fin jnums_def new_ComplexityVector_nums in_unit_clamp)
  then show ?thesis
    by (simp add: valid_vector_def in_unit_clamp)
qed

lemma scale_result_valid: "scale a factor = Inr r \<Longrightarrow> valid_vector r"
  unfolding scale_def by (rule new_ComplexityVector_valid)

text \<open>
  An infinite factor: a component above 0 becomes 1 or 0, a component 0 becomes NaN, and
  the constructor rejects it.
\<close>

lemma scale_infinite_valid:
  assumes "valid_vector a" and "list_all (\<lambda>x. x \<noteq> 0) a"
  shows "scale a PInf = Inr [1, 1, 1, 1]" and "scale a NInf = Inr [0, 0, 0, 0]"
proof -
  from assms(1) obtain a0 a1 a2 a3 where a: "a = [a0, a1, a2, a3]"
    and u: "in_unit a0" "in_unit a1" "in_unit a2" "in_unit a3" by (rule valid_vectorE)
  from assms(2) u have pos: "0 < a0" "0 < a1" "0 < a2" "0 < a3"
    by (simp_all add: a in_unit_def)
  have one: "in_unit 1" and zero: "in_unit 0" by (simp_all add: in_unit_def)
  show "scale a PInf = Inr [1, 1, 1, 1]"
    unfolding scale_def a
    by (simp add: pos signed_inf_def clamp01_def jmin_def jmax_def jnums_def
        new_ComplexityVector_nums[OF one one one one])
  show "scale a NInf = Inr [0, 0, 0, 0]"
    unfolding scale_def a
    by (simp add: pos signed_inf_def clamp01_def jmin_def jmax_def jnums_def
        new_ComplexityVector_nums[OF zero zero zero zero])
qed

lemmas vector_eval = add_def subtract_def scale_def mapi_def num_at_def clamp01_def jmin_def
  jmax_def jsub_def jnums_def nums_def new_ComplexityVector_def param_def elem_at_def
  validate_def valid_vector_def in_unit_def signed_inf_def

text \<open>
  Claim C8, as stated, fails for the numeric factor \<open>Infinity\<close> and a valid vector with
  a component 0: \<open>0 * Infinity\<close> is NaN, clamping keeps it, and \<open>scale\<close> throws
  \<open>Component 0 is not a number\<close> instead of returning a vector.
\<close>

theorem scale_by_infinity_throws:
  "valid_vector [0, 0.5, 0.5, 0.5]
   \<and> scale [0, 0.5, 0.5, 0.5] PInf = Inl (ComponentNotANumber 0)"
  by (simp add: vector_eval)

text \<open>
  Claim C8, amended. For valid vectors \<open>a\<close> and \<open>b\<close>, \<open>a.add(b)\<close> and
  \<open>a.subtract(b)\<close> return a vector whose four components lie in \<open>[0,1]\<close>, and so does
  \<open>a.scale(factor)\<close> for every finite \<open>factor\<close>, and for the factors \<open>Infinity\<close>
  and \<open>-Infinity\<close> when no component of \<open>a\<close> is 0. Whatever the factor, a vector that
  \<open>scale\<close> returns has its four components in \<open>[0,1]\<close>.
\<close>

theorem vector_arithmetic_stays_in_unit_interval:
  assumes "valid_vector a" and "valid_vector b"
  shows "(\<exists>r. add a b = Inr r \<and> valid_vector r)
       \<and> (\<exists>r. subtract a b = Inr r \<and> valid_vector r)
       \<and> (\<forall>f. \<exists>r. scale a (Fin f) = Inr r \<and> valid_vector r)
       \<and> (list_all (\<lambda>x. x \<noteq> 0) a \<longrightarrow>
            (\<exists>r. scale a PInf = Inr r \<and> valid_vector r)
          \<and> (\<exists>r. scale a NInf = Inr r \<and> valid_vector r))
       \<and> (\<forall>factor r. scale a factor = Inr r \<longrightarrow> valid_vector r)"
proof -
  have inf: "(\<exists>r. scale a PInf = Inr r \<and> valid_vector r)
      \<and> (\<exists>r. scale a NInf = Inr r \<and> valid_vector r)" if "list_all (\<lambda>x. x \<noteq> 0) a"
    using scale_infinite_valid[OF assms(1) that] by (simp add: valid_vector_def in_unit_def)
  from add_valid[OF assms] subtract_valid[OF assms] scale_valid[OF assms(1)] inf
    scale_result_valid
  show ?thesis by blast
qed

theorem vector_arithmetic_stays_in_unit_interval_witness:
  "valid_vector [0.5, 0.5, 0.5, 0.5] \<and> valid_vector [0.7, 0.5, 0, 1]
   \<and> add [0.5, 0.5, 0.5, 0.5] [0.7, 0.5, 0, 1] = Inr [1, 1, 0.5, 1]
   \<and> subtract [0.5, 0.5, 0.5, 0.5] [0.7, 0.5, 0, 1] = Inr [0, 0, 0.5, 0]
   \<and> scale [0.5, 0.5, 0.5, 0.5] (Fin 3) = Inr [1, 1, 1, 1]
   \<and> list_all (\<lambda>x. x \<noteq> 0) [0.5, 0.5, 0.5, 0.5 :: real]
   \<and> scale [0.5, 0.5, 0.5, 0.5] PInf = Inr [1, 1, 1, 1]
   \<and> scale [0.5, 0.5, 0.5, 0.5] NInf = Inr [0, 0, 0, 0]
   \<and> valid_vector [1, 1, 1, 1]"
proof -
  have a: "valid_vector [0.5, 0.5, 0.5, 0.5]" and b: "valid_vector [0.7, 0.5, 0, 1]"
    by (simp_all add: valid_vector_def in_unit_def)
  show ?thesis
    using a b vector_arithmetic_stays_in_unit_interval[OF a b]
    by (simp add: vector_eval)
qed

section \<open>Properties of ComplexityMath\<close>

lemma clone_valid: "valid_vector v \<Longrightarrow> clone v = Inr v"
  by (erule valid_vectorE) (simp add: clone_def nums_def new_ComplexityVector_nums)

lemma equals_refl:
  assumes "valid_vector v"
  shows "equals v v EPSILON"
proof -
  from assms obtain a b c d where v: "v = [a, b, c, d]" by (rule valid_vectorE)
  show ?thesis
    unfolding v equals_def
    by (simp add: mapi4 num_at4 jsub_def EPSILON_def)
qed

lemma clamp01_not_NaN:
  assumes "x \<noteq> NaN"
  shows "\<exists>y. clamp01 x = Fin y \<and> in_unit y"
proof (cases x)
  case (Fin r)
  then show ?thesis by (simp add: clamp01_Fin in_unit_clamp)
next
  case PInf
  then show ?thesis by (simp add: clamp01_def jmin_def jmax_def in_unit_def)
next
  case NInf
  then show ?thesis by (simp add: clamp01_def jmin_def jmax_def in_unit_def)
next
  case NaN
  with assms show ?thesis by simp
qed

lemma jadd_Fin_not_NaN: "x \<noteq> NaN \<Longrightarrow> jadd (Fin c) x \<noteq> NaN"
  by (cases x) simp_all

lemma indexOf_keys:
  "indexOf keys ''alg'' = Some 0" "indexOf keys ''info'' = Some 1"
  "indexOf keys ''dyn'' = Some 2" "indexOf keys ''geom'' = Some 3"
  by (simp_all add: keys_def)

lemma applyImprovement_valid:
  assumes "valid_vector v" and "k \<in> set keys" and "x \<noteq> NaN"
  shows "\<exists>v'. applyImprovement v k x = Inr v' \<and> valid_vector v'"
proof -
  from assms(1) obtain a b c d where v: "v = [a, b, c, d]"
    and u: "in_unit a" "in_unit b" "in_unit c" "in_unit d" by (rule valid_vectorE)
  have cl: "clone [a, b, c, d] = Inr [a, b, c, d]"
    using clone_valid[OF assms(1)] by (simp add: v)
  have step: "\<exists>y. clamp01 (jadd (Fin c0) x) = Fin y \<and> in_unit y" for c0
    by (rule clamp01_not_NaN[OF jadd_Fin_not_NaN[OF assms(3)]])
  from assms(2) consider "k = ''alg''" | "k = ''info''" | "k = ''dyn''" | "k = ''geom''"
    by (auto simp: keys_def)
  then show ?thesis
  proof cases
    case 1
    from step[of a] obtain y where "clamp01 (jadd (Fin a) x) = Fin y" "in_unit y" by blast
    with 1 u show ?thesis
      by (simp add: applyImprovement_def bind_err_def cl get_def set_component_def indexOf_keys
          v num_at_def validate_def valid_vector_def in_unit_def)
  next
    case 2
    from step[of b] obtain y where "clamp01 (jadd (Fin b) x) = Fin y" "in_unit y" by blast
    with 2 u show ?thesis
      by (simp add: applyImprovement_def bind_err_def cl get_def set_component_def indexOf_keys
          v num_at_def validate_def valid_vector_def in_unit_def)
  next
    case 3
    from step[of c] obtain y where "clamp01 (jadd (Fin c) x) = Fin y" "in_unit y" by blast
    with 3 u show ?thesis
      by (simp add: applyImprovement_def bind_err_def cl get_def set_component_def indexOf_keys
          v num_at_def validate_def valid_vector_def in_unit_def)
  next
    case 4
    from step[of d] obtain y where "clamp01 (jadd (Fin d) x) = Fin y" "in_unit y" by blast
    with 4 u show ?thesis
      by (simp add: applyImprovement_def bind_err_def cl get_def set_component_def indexOf_keys
          v num_at_def validate_def valid_vector_def in_unit_def)
  qed
qed

text \<open>
  Claim C6. For every valid initial vector and every deltas object whose four step sizes
  are numbers (finite or infinite, not NaN and not missing), \<open>generateCycle\<close> returns,
  its sequence has six states, and the last one is the initial vector, hence equal to it
  under \<open>equals\<close> with the default tolerance.
\<close>

theorem generateCycle_returns_to_initial:
  assumes "valid_vector initial"
    and "list_all (\<lambda>k. delta_of d k \<noteq> NaN) keys"
  shows "\<exists>c. generateCycle initial d = Inr c
           \<and> length (states c) = 6
           \<and> last (states c) = initial
           \<and> equals (last (states c)) initial EPSILON"
proof -
  from assms(2) have ds: "delta_of d ''alg'' \<noteq> NaN" "delta_of d ''info'' \<noteq> NaN"
      "delta_of d ''dyn'' \<noteq> NaN" "delta_of d ''geom'' \<noteq> NaN"
    by (simp_all add: keys_def)
  have c0: "clone initial = Inr initial" by (rule clone_valid) fact
  obtain v1 where v1: "applyImprovement initial ''alg'' (delta_of d ''alg'') = Inr v1"
      "valid_vector v1"
    using applyImprovement_valid[OF assms(1) _ ds(1)] by (auto simp: keys_def)
  obtain v2 where v2: "applyImprovement v1 ''info'' (delta_of d ''info'') = Inr v2"
      "valid_vector v2"
    using applyImprovement_valid[OF v1(2) _ ds(2)] by (auto simp: keys_def)
  obtain v3 where v3: "applyImprovement v2 ''dyn'' (delta_of d ''dyn'') = Inr v3"
      "valid_vector v3"
    using applyImprovement_valid[OF v2(2) _ ds(3)] by (auto simp: keys_def)
  obtain v4 where v4: "applyImprovement v3 ''geom'' (delta_of d ''geom'') = Inr v4"
      "valid_vector v4"
    using applyImprovement_valid[OF v3(2) _ ds(4)] by (auto simp: keys_def)
  show ?thesis
    by (simp add: generateCycle_def bind_err_def c0 v1 v2 v3 v4 clone_valid
        equals_refl[OF assms(1)])
qed

theorem generateCycle_returns_to_initial_witness:
  "valid_vector [0.5, 0.5, 0.5, 0.5]
   \<and> list_all (\<lambda>k. delta_of DEFAULT_DELTAS k \<noteq> NaN) keys
   \<and> (\<exists>c. generateCycle [0.5, 0.5, 0.5, 0.5] DEFAULT_DELTAS = Inr c
           \<and> length (states c) = 6
           \<and> last (states c) = [0.5, 0.5, 0.5, 0.5]
           \<and> equals (last (states c)) [0.5, 0.5, 0.5, 0.5] EPSILON)"
proof -
  have a: "valid_vector [0.5, 0.5, 0.5, 0.5]"
    by (simp add: valid_vector_def in_unit_def)
  have b: "list_all (\<lambda>k. delta_of DEFAULT_DELTAS k \<noteq> NaN) keys"
    by (simp add: keys_def delta_of_def DEFAULT_DELTAS_def)
  show ?thesis
    using a b generateCycle_returns_to_initial[OF a b] by simp
qed

lemma sqrt_25th: "sqrt (1 / 25) = 1 / 5"
  by (rule real_sqrt_unique) (simp_all add: power2_eq_square)

lemma calculateSignalLoss_threshold_example:
  "calculateSignalLoss [0.5, 0.5, 0.5, 0.5] [0.7, 0.5, 0.5, 0.5]
     (Some [Fin 0.25, Fin 0.25, Fin 0.25, Fin 0.25])
   = \<lparr> total = Fin 0, byPillar = Map.empty, scalarChange = Fin 0.05,
       vectorChanges = [Fin 0.2, Fin 0, Fin 0, Fin 0], isSignalLost = False,
       lossType = compression \<rparr>"
  by (simp add: calculateSignalLoss_def computeScalarAverage_def scalar_of_def jsum_def
      weighted_sum_def jnum_at_def toArray_def mapi_def num_at_def jsub_def jgt_def EPSILON_def
      lost_signal_step_def SIGNAL_LOSS_THRESHOLD_def categorizeLoss_def sqrt_25th)

text \<open>
  Claim C3, as stated, fails: for before \<open>[0.5,0.5,0.5,0.5]\<close>, after
  \<open>[0.7,0.5,0.5,0.5]\<close> and equal weights the loss-type tag is not \<open>none\<close>.
\<close>

theorem calculateSignalLoss_threshold_not_none:
  "lossType (calculateSignalLoss [0.5, 0.5, 0.5, 0.5] [0.7, 0.5, 0.5, 0.5]
     (Some [Fin 0.25, Fin 0.25, Fin 0.25, Fin 0.25])) \<noteq> none"
  using calculateSignalLoss_threshold_example by simp

text \<open>
  Claim C3, amended. On that input no dimension is flagged as lost (total loss 0, empty
  per-dimension map, \<open>isSignalLost\<close> false) and the loss-type tag is \<open>compression\<close>:
  the scalar change 0.05 is above \<open>EPSILON\<close> and below half the magnitude 0.2 of the
  vector change.
\<close>

theorem calculateSignalLoss_threshold_compression:
  "total (calculateSignalLoss [0.5, 0.5, 0.5, 0.5] [0.7, 0.5, 0.5, 0.5]
     (Some [Fin 0.25, Fin 0.25, Fin 0.25, Fin 0.25])) = Fin 0
   \<and> byPillar (calculateSignalLoss [0.5, 0.5, 0.5, 0.5] [0.7, 0.5, 0.5, 0.5]
     (Some [Fin 0.25, Fin 0.25, Fin 0.25, Fin 0.25])) = Map.empty
   \<and> isSignalLost (calculateSignalLoss [0.5, 0.5, 0.5, 0.5] [0.7, 0.5, 0.5, 0.5]
     (Some [Fin 0.25, Fin 0.25, Fin 0.25, Fin 0.25])) = False
   \<and> scalarChange (calculateSignalLoss [0.5, 0.5, 0.5, 0.5] [0.7, 0.5, 0.5, 0.5]
     (Some [Fin 0.25, Fin 0.25, Fin 0.25, Fin 0.25])) = Fin 0.05
   \<and> lossType (calculateSignalLoss [0.5, 0.5, 0.5, 0.5] [0.7, 0.5, 0.5, 0.5]
     (Some [Fin 0.25, Fin 0.25, Fin 0.25, Fin 0.25])) = compression"
  using calculateSignalLoss_threshold_example by simp

section \<open>Properties of ComplexityState\<close>

subsection \<open>History and notification\<close>

lemma push_bounded_length:
  "length h \<le> m \<Longrightarrow> 0 < m \<Longrightarrow> length (push_bounded m h e) = min m (Suc (length h))"
  by (auto simp: push_bounded_def)

lemma push_bounded_drop:
  assumes "length h \<le> m"
  shows "push_bounded m h e = drop (Suc (length h) - m) (h @ [e])"
proof (cases "length h = m")
  case True
  have "tl (h @ [e]) = drop (Suc 0) (h @ [e])"
    by (simp add: drop_Suc del: drop_append)
  moreover from True have "Suc (length h) - m = Suc 0" by simp
  ultimately show ?thesis
    using True by (simp add: push_bounded_def del: drop_append)
next
  case False
  with assms have "length h < m" by simp
  then show ?thesis by (simp add: push_bounded_def)
qed

lemma push_bounded_last:
  "0 < m \<Longrightarrow> push_bounded m h e \<noteq> [] \<and> last (push_bounded m h e) = e"
  by (cases h) (auto simp: push_bounded_def last_tl)

lemma push_bounded_all:
  "list_all P h \<Longrightarrow> P e \<Longrightarrow> list_all P (push_bounded m h e)"
  by (cases h) (auto simp: push_bounded_def)

lemma notify_fields [simp]:
  "vector (notify u s) = vector s"
  "history (notify u s) = history s"
  "maxHistory (notify u s) = maxHistory s"
  "weights (notify u s) = weights s"
  "deltas (notify u s) = deltas s"
  "observers (notify u s) = observers s"
  "lastOperation (notify u s) = lastOperation s"
  "sessionStartTime (notify u s) = sessionStartTime s"
  "operationCount (notify u s) = operationCount s"
  "notified (notify u s) = notified s @ map (\<lambda>ob. (ob, u)) (observers s)"
  by (simp_all add: notify_def)

lemma logged_fields [simp]:
  "vector (logged now operation s) = vector s"
  "history (logged now operation s) =
     push_bounded (maxHistory s) (history s) (snapshot_entry now operation s)"
  "maxHistory (logged now operation s) = maxHistory s"
  "weights (logged now operation s) = weights s"
  "deltas (logged now operation s) = deltas s"
  "observers (logged now operation s) = observers s"
  "operationCount (logged now operation s) = operationCount s"
  "notified (logged now operation s) = notified s"
  by (simp_all add: logged_def)

lemma addToHistory_valid:
  assumes "valid_vector v"
  shows "addToHistory now v operation s =
    (Returned, s\<lparr>history := push_bounded (maxHistory s) (history s)
       \<lparr> h_vector = v, h_operation = operation, h_timestamp = now,
         h_scalar = Some (getScalar (Some v) None s),
         h_operationIndex = Some (operationCount s) \<rparr>\<rparr>)"
  by (simp add: addToHistory_def clone_valid[OF assms])

lemma updateVector_valid:
  assumes "valid_vector (vector s)"
  shows "updateVector th te newVector operation s =
    (case vector_of_arg newVector of
       Inl e \<Rightarrow> (Threw e, logged th operation s)
     | Inr v \<Rightarrow>
         (Returned,
          notify (VectorUpdate v operation te)
            ((logged th operation s)\<lparr>vector := v, lastOperation := operation,
               operationCount := operationCount s + 1\<rparr>)))"
  by (simp add: updateVector_def clone_valid[OF assms] addToHistory_valid[OF assms]
      logged_def snapshot_entry_def vector_of_arg_def split: sum.split)

lemma vector_of_arg_valid: "vector_of_arg x = Inr v \<Longrightarrow> valid_vector v"
  by (cases x) (auto simp: vector_of_arg_def clone_def dest: new_ComplexityVector_valid)

lemma fresh_state:
  "new_ComplexityState now empty_config =
     Inr \<lparr> vector = [0.5, 0.5, 0.5, 0.5], history = [], maxHistory = 100,
           weights = DEFAULT_WEIGHTS, deltas = DEFAULT_DELTAS, observers = [],
           lastOperation = OpNull, currentScenario = None, sessionStartTime = now,
           operationCount = 0, notified = [] \<rparr>"
  by (simp add: new_ComplexityState_def empty_config_def bind_err_def DEFAULT_VECTOR_def
      nums_def new_ComplexityVector_def param_def elem_at_def validate_def MAX_HISTORY_def)

subsection \<open>The state invariant\<close>

lemma state_ok_new:
  assumes "new_ComplexityState now cfg = Inr s"
  shows "state_ok s"
proof -
  from assms obtain v where v: "new_ComplexityVector
      (case c_initial cfg of None \<Rightarrow> nums DEFAULT_VECTOR | Some xs \<Rightarrow> xs) = Inr v"
    and s: "vector s = v" "history s = []" "maxHistory s =
      (case c_maxHistory cfg of None \<Rightarrow> MAX_HISTORY | Some n \<Rightarrow> if n = 0 then MAX_HISTORY else n)"
    by (auto simp: new_ComplexityState_def bind_err_def split: sum.splits)
  from s(3) have "0 < maxHistory s"
    by (simp add: MAX_HISTORY_def split: option.splits)
  with new_ComplexityVector_valid[OF v] s show ?thesis
    by (simp add: state_ok_def)
qed

lemma state_ok_logged: "state_ok s \<Longrightarrow> state_ok (logged now operation s)"
  by (simp add: state_ok_def push_bounded_all snapshot_entry_def)

lemma state_ok_notify [simp]: "state_ok (notify u s) = state_ok s"
  by (simp add: state_ok_def)

lemma state_ok_updateVector:
  assumes "state_ok s"
  shows "state_ok (snd (updateVector th te newVector operation s))"
proof -
  from assms have v: "valid_vector (vector s)" by (simp add: state_ok_def)
  from state_ok_logged[OF assms, of th operation]
  have l: "state_ok (logged th operation s)" .
  show ?thesis
  proof (cases "vector_of_arg newVector")
    case (Inl e)
    with l show ?thesis by (simp add: updateVector_valid[OF v])
  next
    case (Inr w)
    with l vector_of_arg_valid[OF Inr] show ?thesis
      by (simp add: updateVector_valid[OF v] state_ok_def)
  qed
qed

lemma state_ok_improve:
  assumes "state_ok s"
  shows "state_ok (snd (improve arg_limit th te pillar delta s))"
  using assms state_ok_updateVector[OF assms]
  by (simp add: improve_def Let_def split: sum.split)

lemma state_ok_reset:
  assumes "state_ok s"
  shows "state_ok (snd (reset th te initial s))"
proof -
  from assms have "state_ok (s\<lparr>history := [], operationCount := 0, lastOperation := OpNull\<rparr>)"
    by (simp add: state_ok_def)
  then show ?thesis
    unfolding reset_def by (rule state_ok_updateVector)
qed

lemma state_ok_undo:
  assumes "state_ok s"
  shows "state_ok (snd (undo now s))"
proof (cases "history s = []")
  case True
  with assms show ?thesis by (simp add: undo_def)
next
  case False
  with assms have h: "list_all (\<lambda>h. valid_vector (h_vector h)) (butlast (history s))"
    and l: "valid_vector (h_vector (last (history s)))"
    by (auto simp: state_ok_def list_all_iff dest: in_set_butlastD)
  with assms False show ?thesis
    by (simp add: undo_def Let_def clone_valid[OF l] state_ok_def)
qed

lemma state_ok_updateWeights: "state_ok s \<Longrightarrow> state_ok (snd (updateWeights now w s))"
  by (cases w) (simp_all add: updateWeights_def Let_def state_ok_def notify_def)

lemma state_ok_updateDeltas: "state_ok s \<Longrightarrow> state_ok (updateDeltas now d s)"
  by (simp add: updateDeltas_def Let_def state_ok_def notify_def)

lemma state_ok_subscribe: "state_ok s \<Longrightarrow> state_ok (subscribe ob s)"
  by (simp add: subscribe_def state_ok_def)

lemma import_history_valid:
  "import_history hs = Inr es \<Longrightarrow> list_all (\<lambda>h. valid_vector (h_vector h)) es"
proof (induction hs arbitrary: es)
  case Nil
  then show ?case by simp
next
  case (Cons h hs)
  from Cons.prems obtain v rest where "new_ComplexityVector (pe_vector h) = Inr v"
    and "import_history hs = Inr rest" and "h_vector (hd es) = v" and "tl es = rest"
    and "es \<noteq> []"
    by (auto simp: bind_err_def split: sum.splits)
  with Cons.IH[of rest] new_ComplexityVector_valid[of "pe_vector h" v] show ?case
    by (cases es) simp_all
qed

lemma state_ok_import:
  assumes "state_ok s"
  shows "state_ok (snd (import_data t1 t2 data s))"
  using assms
  by (auto simp: import_data_def Let_def state_ok_def
      dest: new_ComplexityVector_valid import_history_valid split: sum.split)


subsection \<open>Evaluation\<close>

lemmas state_eval = new_ComplexityState_def empty_config_def bind_err_def DEFAULT_VECTOR_def
  nums_def new_ComplexityVector_def param_def elem_at_def validate_def MAX_HISTORY_def
  updateVector_def clone_def addToHistory_def push_bounded_def getScalar_def scalar_of_def
  jsum_def weighted_sum_def jnum_at_def toArray_def DEFAULT_WEIGHTS_def jsub_def jgt_def
  EPSILON_def notify_def import_data_def export_def updateWeights_def

lemma initial_state_eq:
  "initial_state =
     \<lparr> vector = [0.5, 0.5, 0.5, 0.5], history = [], maxHistory = 100,
       weights = DEFAULT_WEIGHTS, deltas = DEFAULT_DELTAS, observers = [],
       lastOperation = OpNull, currentScenario = None, sessionStartTime = 0,
       operationCount = 0, notified = [] \<rparr>"
  by (simp add: initial_state_def fresh_state)

subsection \<open>Calls that throw\<close>

lemma vector_of_arg_other:
  "(\<forall>xs. x \<noteq> JArr xs) \<Longrightarrow> (\<forall>d. x \<noteq> JVec d) \<Longrightarrow> vector_of_arg x = Inl InvalidVectorType"
  by (cases x) (simp_all add: vector_of_arg_def)

text \<open>
  A rejected argument: the call throws, with the snapshot of the current vector already in
  the history.
\<close>

lemma updateVector_rejected:
  assumes "valid_vector (vector s)" and "vector_of_arg newVector = Inl e"
  shows "updateVector th te newVector operation s = (Threw e, logged th operation s)"
  by (simp add: updateVector_valid[OF assms(1)] assms(2))

text \<open>
  Claim C2 says that a rejected \<open>updateVector\<close> call leaves the history, the current
  vector and the operation counter unchanged. The code logs the current vector before it
  looks at the argument: on a fresh state, the call with the array \<open>[2, 0.5, 0.5, 0.5]\<close>
  throws \<open>Component 0 out of range\<close>, the vector and the counter are unchanged, and the
  history, empty before, now holds one entry.
\<close>

theorem updateVector_failure_logs_history:
  "fst (updateVector 1 2 out_of_range_array (OpLabel ''bad'') initial_state)
     = Threw (ComponentOutOfRange 0)
   \<and> vector (snd (updateVector 1 2 out_of_range_array (OpLabel ''bad'') initial_state))
     = vector initial_state
   \<and> operationCount (snd (updateVector 1 2 out_of_range_array (OpLabel ''bad'') initial_state))
     = operationCount initial_state
   \<and> history initial_state = []
   \<and> history (snd (updateVector 1 2 out_of_range_array (OpLabel ''bad'') initial_state))
     = [\<lparr> h_vector = [0.5, 0.5, 0.5, 0.5], h_operation = OpLabel ''bad'', h_timestamp = 1,
          h_scalar = Some (Fin 0.5), h_operationIndex = Some 0 \<rparr>]"
  by (simp add: initial_state_eq out_of_range_array_def state_eval)

text \<open>
  A payload whose vector is rejected leaves the state as it was; a payload whose history is
  rejected leaves the state with the vector, weights and deltas of the payload.
\<close>

lemma import_data_invalid_vector:
  "new_ComplexityVector (p_vector data) = Inl e
   \<Longrightarrow> import_data t1 t2 data s = (Threw InvalidImportData, s)"
  by (simp add: import_data_def)

lemma import_data_invalid_history:
  assumes "new_ComplexityVector (p_vector data) = Inr v"
    and "import_history (case p_history data of None \<Rightarrow> [] | Some hs \<Rightarrow> hs) = Inl e"
  shows "import_data t1 t2 data s =
    (Threw InvalidImportData,
     s\<lparr>vector := v,
       weights := (case p_weights data of None \<Rightarrow> DEFAULT_WEIGHTS | Some w \<Rightarrow> w),
       deltas := (case p_deltas data of None \<Rightarrow> DEFAULT_DELTAS | Some d \<Rightarrow> d)\<rparr>)"
  using assms by (simp add: import_data_def)

text \<open>
  Claim C1 says that a failed \<open>import\<close> leaves the whole state unchanged. The code
  assigns the vector, the weights and the deltas before it parses the history: on a fresh
  state, a payload with a valid vector, weights \<open>[1,0,0,0]\<close> and a history entry
  whose vector has the component 2 makes \<open>import\<close> throw \<open>Invalid import data\<close>
  with the vector and the weights of the payload already stored. The history and the
  operation counter are unchanged.
\<close>

theorem import_failure_overwrites_vector:
  "fst (import_data 1 2 bad_history_payload initial_state) = Threw InvalidImportData
   \<and> vector initial_state = [0.5, 0.5, 0.5, 0.5]
   \<and> vector (snd (import_data 1 2 bad_history_payload initial_state)) = [0.1, 0.1, 0.1, 0.1]
   \<and> weights initial_state = [Fin 0.25, Fin 0.25, Fin 0.25, Fin 0.25]
   \<and> weights (snd (import_data 1 2 bad_history_payload initial_state))
        = [Fin 1, Fin 0, Fin 0, Fin 0]
   \<and> history (snd (import_data 1 2 bad_history_payload initial_state)) = history initial_state
   \<and> operationCount (snd (import_data 1 2 bad_history_payload initial_state))
        = operationCount initial_state"
  by (simp add: initial_state_eq bad_history_payload_def state_eval)

subsection \<open>Weights\<close>


text \<open>
  The sum of four non-negative numbers as \<open>reduce\<close> computes it: their sum, or
  \<open>Infinity\<close> once that overflows.
\<close>

lemma jsum_nonneg:
  assumes "0 \<le> a" "0 \<le> b" "0 \<le> c" "0 \<le> d"
  shows "jsum [Fin a, Fin b, Fin c, Fin d] = fin (a + b + c + d)"
  using assms OVERFLOW_large by (auto simp: jsum_def fin_def)

text \<open>An overflowing sum: every finite weight divided by \<open>Infinity\<close> is 0.\<close>

lemma updateWeights_overflow:
  "weights (snd (updateWeights 1
      (WeightArray [Fin (10 ^ 308), Fin (10 ^ 308), Fin 0, Fin 0]) initial_state))
     = [Fin 0, Fin 0, Fin 0, Fin 0]"
  by (simp add: updateWeights_def jsum_def fin_def OVERFLOW_def notify_def)



subsection \<open>improve and reset\<close>

lemma new_ComplexityVector_prefix:
  assumes "in_unit a" "in_unit b" "in_unit c" "in_unit d"
  shows "new_ComplexityVector (nums [a, b, c, d] @ rest) = Inr [a, b, c, d]"
  using assms
  by (simp add: nums_def new_ComplexityVector_def param_def elem_at_def validate_def
      in_unit_def not_less)

lemma array_set_outside:
  assumes "pillar < 0 \<or> int (length xs) \<le> pillar"
  shows "\<exists>rest. array_set xs pillar v = xs @ rest"
  using assms by (auto simp: array_set_def)

lemma length_array_set_extended:
  assumes "int (length xs) \<le> pillar" and "pillar < 4294967295"
  shows "length (array_set xs pillar v) = nat pillar + 1"
  using assms by (auto simp: array_set_def)

lemma length_array_set_unchanged:
  assumes "pillar < 0 \<or> 4294967295 \<le> pillar"
  shows "array_set xs pillar v = xs"
  using assms by (auto simp: array_set_def)

text \<open>
  An index from the engine's argument limit up to \<open>2^32 - 2\<close>: the array is extended
  beyond what a call accepts, and \<open>improve\<close> throws before anything is logged.
\<close>

lemma improve_too_many_arguments:
  assumes "length (vector s) = 4" and "3 < pillar" and "int arg_limit \<le> pillar"
    and "pillar < 4294967295"
  shows "improve arg_limit th te pillar delta s = (Threw RangeError, s)"
proof -
  from assms(1,2) have "int (length (nums (toArray (vector s)))) \<le> pillar"
    by (simp add: nums_def toArray_def)
  from length_array_set_extended[OF this assms(4)] assms(3)
  have "arg_limit < length (array_set (nums (toArray (vector s))) pillar
      (JNum (clamp01 (jadd (num_at_int (toArray (vector s)) pillar) delta))))"
    by simp
  then show ?thesis
    by (simp add: improve_def spread_new_ComplexityVector_def)
qed

text \<open>
  Claim C9, as stated, fails for a pillar index above the number of arguments the engine
  accepts in one call: on an engine that accepts 65535 arguments, \<open>improve(100000, 0.1)\<close>
  on a fresh state throws a \<open>RangeError\<close> and leaves the state as it was, with nothing
  logged, counted or notified.
\<close>

theorem improve_large_pillar_throws:
  "improve 65535 1 2 100000 (Fin 0.1) initial_state = (Threw RangeError, initial_state)"
proof -
  have "length (vector initial_state) = 4"
    by (simp add: initial_state_eq)
  then show ?thesis
    by (rule improve_too_many_arguments) simp_all
qed

text \<open>
  Claim C9, amended. On an engine that accepts at least four arguments in a call, in a
  state with a valid vector and a positive capacity, \<open>improve\<close> with any number as delta
  and a pillar index that is negative, or above 3 and below the engine's argument limit,
  or at least \<open>2^32 - 1\<close>, returns without throwing: the current vector is unchanged, a
  snapshot of it has been pushed on the history (and is its last entry), the operation
  counter is one higher, and every observer has received a \<open>vectorUpdate\<close> event.
\<close>

theorem improve_outside_pillars:
  assumes "valid_vector (vector s)" and "0 < maxHistory s" and "4 \<le> arg_limit"
    and "pillar < 0 \<or> (3 < pillar \<and> pillar < int arg_limit) \<or> 4294967295 \<le> pillar"
  shows "\<exists>s'. improve arg_limit th te pillar delta s = (Returned, s')
     \<and> vector s' = vector s
     \<and> history s' = push_bounded (maxHistory s) (history s)
                       (snapshot_entry th (OpImprove None delta) s)
     \<and> last (history s') = snapshot_entry th (OpImprove None delta) s
     \<and> operationCount s' = operationCount s + 1
     \<and> notified s' = notified s
          @ map (\<lambda>ob. (ob, VectorUpdate (vector s) (OpImprove None delta) te)) (observers s)"
proof -
  from assms(1) obtain a b c d where v: "vector s = [a, b, c, d]"
    and u: "in_unit a" "in_unit b" "in_unit c" "in_unit d" by (rule valid_vectorE)
  let ?new = "JNum (clamp01 (jadd (num_at_int [a, b, c, d] pillar) delta))"
  from assms(4) have "pillar < 0 \<or> int (length (nums [a, b, c, d])) \<le> pillar"
    by (auto simp: nums_def)
  from array_set_outside[OF this] obtain rest where
    rest: "array_set (nums [a, b, c, d]) pillar ?new = nums [a, b, c, d] @ rest"
    by blast
  have len: "length (array_set (nums [a, b, c, d]) pillar ?new) \<le> arg_limit"
  proof (cases "pillar < 0 \<or> 4294967295 \<le> pillar")
    case True
    with assms(3) show ?thesis
      by (simp add: length_array_set_unchanged nums_def)
  next
    case False
    with assms(4) have "int (length (nums [a, b, c, d])) \<le> pillar"
      and "pillar < 4294967295" and "pillar < int arg_limit"
      by (auto simp: nums_def)
    then show ?thesis
      by (simp add: length_array_set_extended)
  qed
  have built: "spread_new_ComplexityVector arg_limit
       (array_set (nums (toArray (vector s))) pillar
          (JNum (clamp01 (jadd (num_at_int (toArray (vector s)) pillar) delta))))
     = Inr (vector s)"
    using len
    by (simp add: spread_new_ComplexityVector_def v toArray_def rest
        new_ComplexityVector_prefix[OF u])
  from assms(4) have key: "key_at_int pillar = None"
    by (auto simp: key_at_int_def keys_def)
  have arg: "vector_of_arg (JVec (vector s)) = Inr (vector s)"
    by (simp add: vector_of_arg_def clone_valid[OF assms(1)])
  have "improve arg_limit th te pillar delta s =
      (Returned, notify (VectorUpdate (vector s) (OpImprove None delta) te)
         ((logged th (OpImprove None delta) s)\<lparr>vector := vector s,
            lastOperation := OpImprove None delta,
            operationCount := operationCount s + 1\<rparr>))"
    by (simp add: improve_def built key updateVector_valid[OF assms(1)] arg)
  with push_bounded_last[OF assms(2)] show ?thesis
    by simp
qed

theorem improve_outside_pillars_witness:
  "valid_vector (vector initial_state) \<and> 0 < maxHistory initial_state \<and> (4::nat) \<le> 65535
   \<and> ((7::int) < 0 \<or> (3 < (7::int) \<and> (7::int) < int 65535) \<or> 4294967295 \<le> (7::int))
   \<and> fst (improve 65535 1 2 7 (Fin 0.1) initial_state) = Returned
   \<and> vector (snd (improve 65535 1 2 7 (Fin 0.1) initial_state)) = [0.5, 0.5, 0.5, 0.5]
   \<and> history (snd (improve 65535 1 2 7 (Fin 0.1) initial_state))
        = [\<lparr> h_vector = [0.5, 0.5, 0.5, 0.5], h_operation = OpImprove None (Fin 0.1),
             h_timestamp = 1, h_scalar = Some (Fin 0.5), h_operationIndex = Some 0 \<rparr>]
   \<and> operationCount (snd (improve 65535 1 2 7 (Fin 0.1) initial_state)) = 1"
proof -
  have a: "valid_vector (vector initial_state)"
    by (simp add: initial_state_eq valid_vector_def in_unit_def)
  have b: "0 < maxHistory initial_state"
    by (simp add: initial_state_eq)
  have c: "(4::nat) \<le> 65535" by simp
  have d: "(7::int) < 0 \<or> (3 < (7::int) \<and> (7::int) < int 65535) \<or> 4294967295 \<le> (7::int)"
    by simp
  from improve_outside_pillars[OF a b c d, of 1 2 "Fin 0.1"] a b show ?thesis
    by (auto simp: initial_state_eq snapshot_entry_def push_bounded_def getScalar_def
        scalar_of_def jsum_def weighted_sum_def jnum_at_def toArray_def DEFAULT_WEIGHTS_def
        jsub_def jgt_def EPSILON_def)
qed

text \<open>
  Claim C10. In a state with a valid vector and a positive capacity, after every
  \<open>reset\<close> call that returns the history is exactly one entry, the snapshot of the
  vector that was current when \<open>reset\<close> was called (labelled \<open>reset\<close>, with
  operation index 0), and the operation counter is 1.
\<close>

theorem reset_leaves_single_entry:
  assumes "valid_vector (vector s)" and "0 < maxHistory s"
    and "reset th te initial s = (Returned, s')"
  shows "history s' = [\<lparr> h_vector = vector s, h_operation = OpLabel ''reset'',
                         h_timestamp = th,
                         h_scalar = Some (getScalar (Some (vector s)) None s),
                         h_operationIndex = Some 0 \<rparr>]
       \<and> operationCount s' = 1"
proof -
  define s0 where "s0 = s\<lparr>history := [], operationCount := 0, lastOperation := OpNull\<rparr>"
  define arg where "arg = (if initial = JUndefined then JArr (nums DEFAULT_VECTOR) else initial)"
  have v0: "valid_vector (vector s0)" using assms(1) by (simp add: s0_def)
  from assms(3) have run: "updateVector th te arg (OpLabel ''reset'') s0 = (Returned, s')"
    by (simp add: reset_def s0_def arg_def)
  then obtain v where "vector_of_arg arg = Inr v"
    and s': "s' = notify (VectorUpdate v (OpLabel ''reset'') te)
        ((logged th (OpLabel ''reset'') s0)\<lparr>vector := v, lastOperation := OpLabel ''reset'',
           operationCount := operationCount s0 + 1\<rparr>)"
    by (auto simp: updateVector_valid[OF v0] split: sum.splits)
  from assms(2) show ?thesis
    by (simp add: s' s0_def push_bounded_def snapshot_entry_def getScalar_def)
qed

theorem reset_leaves_single_entry_witness:
  "valid_vector (vector updated_state) \<and> 0 < maxHistory updated_state
   \<and> reset 3 4 JUndefined updated_state = (Returned, snd (reset 3 4 JUndefined updated_state))
   \<and> history (snd (reset 3 4 JUndefined updated_state))
        = [\<lparr> h_vector = [0.8, 0.4, 0.6, 0.3], h_operation = OpLabel ''reset'',
             h_timestamp = 3, h_scalar = Some (Fin 0.525), h_operationIndex = Some 0 \<rparr>]
   \<and> operationCount (snd (reset 3 4 JUndefined updated_state)) = 1"
proof -
  have st: "vector updated_state = [0.8, 0.4, 0.6, 0.3]" "maxHistory updated_state = 100"
    "weights updated_state = DEFAULT_WEIGHTS"
    by (simp_all add: updated_state_def initial_state_eq state_eval)
  have a: "valid_vector (vector updated_state)"
    by (simp add: st valid_vector_def in_unit_def)
  have b: "0 < maxHistory updated_state"
    by (simp add: st)
  have c: "reset 3 4 JUndefined updated_state = (Returned, snd (reset 3 4 JUndefined updated_state))"
    by (simp add: reset_def updateVector_valid a vector_of_arg_def DEFAULT_VECTOR_def nums_def
        new_ComplexityVector_def param_def elem_at_def validate_def)
  from reset_leaves_single_entry[OF a b c] a b c show ?thesis
    by (simp add: st getScalar_def scalar_of_def jsum_def weighted_sum_def jnum_at_def
        toArray_def DEFAULT_WEIGHTS_def jsub_def jgt_def EPSILON_def)
qed


subsection \<open>The capacity of the history\<close>

lemma push_bounded_length_le:
  "length h \<le> m \<Longrightarrow> length (push_bounded m h e) \<le> m"
  by (auto simp: push_bounded_def)

lemma drop_push_bounded:
  assumes "length h \<le> m"
  shows "drop (length (push_bounded m h e) + n - m) (push_bounded m h e @ es)
       = drop (length h + Suc n - m) (h @ e # es)"
proof (cases "length h = m")
  case True
  then have pb: "push_bounded m h e = tl (h @ [e])"
    by (simp add: push_bounded_def)
  have len: "length (tl (h @ [e])) = m"
    using True by simp
  have "tl (h @ [e]) @ es = tl (h @ e # es)"
    by (cases h) simp_all
  then have "drop n (tl (h @ [e]) @ es) = drop (Suc n) (h @ e # es)"
    by (simp add: drop_Suc del: drop_append)
  with True len show ?thesis
    by (simp add: pb del: drop_append)
next
  case False
  with assms have "length h < m" by simp
  then show ?thesis by (simp add: push_bounded_def)
qed

lemma length_logged_entries: "length (logged_entries calls s) = length calls"
  by (induction calls arbitrary: s) simp_all

lemma update_all_history:
  assumes "valid_vector (vector s)" and "length (history s) \<le> maxHistory s"
    and "update_all calls s = (Returned, s')"
  shows "history s' = drop (length (history s) + length calls - maxHistory s)
                        (history s @ logged_entries calls s)"
  using assms
proof (induction calls arbitrary: s)
  case Nil
  then show ?case by simp
next
  case (Cons c cs)
  let ?u = "updateVector (u_t_hist c) (u_t_event c) (u_newVector c) (u_operation c) s"
  let ?e = "snapshot_entry (u_t_hist c) (u_operation c) s"
  from Cons.prems(3) have ret: "fst ?u = Returned" and rest: "update_all cs (snd ?u) = (Returned, s')"
    by (auto split: prod.splits outcome.splits)
  from ret obtain v where arg: "vector_of_arg (u_newVector c) = Inr v"
    by (auto simp: updateVector_valid[OF Cons.prems(1)] split: sum.splits)
  then have s1: "vector (snd ?u) = v" "maxHistory (snd ?u) = maxHistory s"
    "history (snd ?u) = push_bounded (maxHistory s) (history s) ?e"
    by (simp_all add: updateVector_valid[OF Cons.prems(1)])
  have v1: "valid_vector (vector (snd ?u))"
    using vector_of_arg_valid[OF arg] by (simp add: s1)
  have l1: "length (history (snd ?u)) \<le> maxHistory (snd ?u)"
    using Cons.prems(2) by (simp add: s1 push_bounded_length_le)
  from Cons.IH[OF v1 l1 rest] show ?case
    by (simp add: s1 drop_push_bounded[OF Cons.prems(2)] del: drop_append)
qed

text \<open>
  What \<open>addToHistory\<close> achieves. In a state with a valid vector whose history holds at
  most \<open>maxHistory\<close> entries, \<open>maxHistory + k\<close> successful \<open>updateVector\<close> calls
  leave exactly \<open>maxHistory\<close> entries: the old entries followed by the newly logged
  ones, in order, without the oldest ones, as many as had to go.
\<close>

theorem history_capacity_fifo:
  assumes "valid_vector (vector s)" and "length (history s) \<le> maxHistory s"
    and "length calls = maxHistory s + k"
    and "update_all calls s = (Returned, s')"
  shows "length (history s') = maxHistory s
       \<and> history s' = drop (length (history s) + k) (history s @ logged_entries calls s)"
proof -
  have h: "history s' = drop (length (history s) + k) (history s @ logged_entries calls s)"
    using update_all_history[OF assms(1,2,4)] assms(3) by simp
  then show ?thesis
    using assms(3) by (simp add: length_logged_entries del: drop_append)
qed

lemma small_state_eq:
  "small_state =
     \<lparr> vector = [0.5, 0.5, 0.5, 0.5], history = [], maxHistory = 2,
       weights = DEFAULT_WEIGHTS, deltas = DEFAULT_DELTAS, observers = [],
       lastOperation = OpNull, currentScenario = None, sessionStartTime = 0,
       operationCount = 0, notified = [] \<rparr>"
  by (simp add: small_state_def state_eval)

lemma three_updates_run:
  "fst (update_all three_updates small_state) = Returned
   \<and> map h_vector (history (snd (update_all three_updates small_state)))
        = [[0.1, 0.1, 0.1, 0.1], [0.2, 0.2, 0.2, 0.2]]
   \<and> map h_operation (history (snd (update_all three_updates small_state)))
        = [OpLabel ''second'', OpLabel ''third'']"
  by (simp add: small_state_eq three_updates_def state_eval)

theorem history_capacity_fifo_witness:
  "valid_vector (vector small_state) \<and> length (history small_state) \<le> maxHistory small_state
   \<and> length three_updates = maxHistory small_state + 1
   \<and> update_all three_updates small_state
        = (Returned, snd (update_all three_updates small_state))
   \<and> length (history (snd (update_all three_updates small_state))) = 2
   \<and> map h_vector (history (snd (update_all three_updates small_state)))
        = [[0.1, 0.1, 0.1, 0.1], [0.2, 0.2, 0.2, 0.2]]"
proof -
  have a: "valid_vector (vector small_state)"
    by (simp add: small_state_eq valid_vector_def in_unit_def)
  have b: "length (history small_state) \<le> maxHistory small_state"
    by (simp add: small_state_eq)
  have c: "length three_updates = maxHistory small_state + 1"
    by (simp add: small_state_eq three_updates_def)
  have d: "update_all three_updates small_state
        = (Returned, snd (update_all three_updates small_state))"
    using three_updates_run by (simp add: prod_eq_iff)
  have e: "length (history (snd (update_all three_updates small_state))) = maxHistory small_state"
    by (rule conjunct1[OF history_capacity_fifo[OF a b c d]])
  have f: "maxHistory small_state = 2"
    by (simp add: small_state_eq)
  from a b c d e three_updates_run show ?thesis
    unfolding f by blast
qed

text \<open>
  Claim C7 says that the history never exceeds the configured maximum, and
  \<open>addToHistory\<close> is written to maintain the maximum. \<open>import\<close> installs the
  history of the payload without bounding it, and \<open>addToHistory\<close> removes one entry for
  each one it adds: in a state of capacity 1, after the import of a payload with two
  history entries the history holds two entries, and after one more successful
  \<open>updateVector\<close> call (that is \<open>maxHistory + 0\<close> calls) it still holds two.
\<close>

theorem history_exceeds_capacity_after_import:
  "maxHistory overfull_state = 1
   \<and> length one_update = maxHistory overfull_state + 0
   \<and> fst (update_all one_update overfull_state) = Returned
   \<and> length (history overfull_state) = 2
   \<and> length (history (snd (update_all one_update overfull_state))) = 2"
  by (simp add: overfull_state_def two_entry_payload_def one_update_def state_eval)

subsection \<open>Export followed by import\<close>

lemma import_history_export:
  assumes "list_all (\<lambda>h. valid_vector (h_vector h)) hs"
  shows "import_history (map (\<lambda>h. \<lparr> pe_vector = nums (toArray (h_vector h)),
                                    pe_operation = h_operation h,
                                    pe_timestamp = h_timestamp h \<rparr>) hs)
       = Inr (map (\<lambda>h. \<lparr> h_vector = h_vector h, h_operation = h_operation h,
                          h_timestamp = h_timestamp h, h_scalar = None,
                          h_operationIndex = None \<rparr>) hs)"
  using assms
proof (induction hs)
  case Nil
  then show ?case by simp
next
  case (Cons h hs)
  from Cons.prems have "new_ComplexityVector (nums (h_vector h)) = Inr (h_vector h)"
    using clone_valid[of "h_vector h"] by (simp add: clone_def)
  with Cons show ?case
    by (simp add: bind_err_def toArray_def)
qed

text \<open>
  Claim C4, amended. In a state whose current vector and history vectors are valid,
  \<open>import(export())\<close> returns and restores the vector, the weights, the deltas, the
  operation counter and, of the history, each entry's vector snapshot, operation label and
  timestamp, in order; the scalar value and the operation index of the entries are not
  part of the payload and are absent afterwards.
\<close>

theorem import_export_round_trip:
  assumes "valid_vector (vector s)"
    and "list_all (\<lambda>h. valid_vector (h_vector h)) (history s)"
  shows "\<exists>s'. import_data t1 t2 (export t0 s) s = (Returned, s')
     \<and> vector s' = vector s \<and> weights s' = weights s \<and> deltas s' = deltas s
     \<and> history s' = map (\<lambda>h. \<lparr> h_vector = h_vector h, h_operation = h_operation h,
                                 h_timestamp = h_timestamp h, h_scalar = None,
                                 h_operationIndex = None \<rparr>) (history s)
     \<and> operationCount s' = operationCount s"
proof -
  have v: "new_ComplexityVector (nums (toArray (vector s))) = Inr (vector s)"
    using clone_valid[OF assms(1)] by (simp add: clone_def toArray_def)
  show ?thesis
    by (simp add: import_data_def export_def v import_history_export[OF assms(2)])
qed

lemma updated_state_eq:
  "updated_state =
     \<lparr> vector = [0.8, 0.4, 0.6, 0.3],
       history = [\<lparr> h_vector = [0.5, 0.5, 0.5, 0.5], h_operation = OpNull, h_timestamp = 1,
                    h_scalar = Some (Fin 0.5), h_operationIndex = Some 0 \<rparr>],
       maxHistory = 100,
       weights = DEFAULT_WEIGHTS, deltas = DEFAULT_DELTAS, observers = [],
       lastOperation = OpNull, currentScenario = None, sessionStartTime = 0,
       operationCount = 1, notified = [] \<rparr>"
  by (simp add: updated_state_def initial_state_eq state_eval)

theorem import_export_round_trip_witness:
  "valid_vector (vector updated_state)
   \<and> list_all (\<lambda>h. valid_vector (h_vector h)) (history updated_state)
   \<and> fst (import_data 4 5 (export 3 updated_state) updated_state) = Returned
   \<and> vector (snd (import_data 4 5 (export 3 updated_state) updated_state)) = [0.8, 0.4, 0.6, 0.3]
   \<and> history (snd (import_data 4 5 (export 3 updated_state) updated_state))
        = [\<lparr> h_vector = [0.5, 0.5, 0.5, 0.5], h_operation = OpNull, h_timestamp = 1,
             h_scalar = None, h_operationIndex = None \<rparr>]"
proof -
  have a: "valid_vector (vector updated_state)"
    by (simp add: updated_state_eq valid_vector_def in_unit_def)
  have b: "list_all (\<lambda>h. valid_vector (h_vector h)) (history updated_state)"
    by (simp add: updated_state_eq valid_vector_def in_unit_def)
  from import_export_round_trip[OF a b, of 4 5 3] a b show ?thesis
    by (auto simp: updated_state_eq)
qed

text \<open>
  Claim C4, as stated, fails on the scalar values of the history: after one
  \<open>updateVector\<close> call on a fresh state the only history entry has the scalar 0.5,
  and after \<open>import(export())\<close> it has none.
\<close>

theorem import_export_drops_scalar:
  "fst (import_data 4 5 (export 3 updated_state) updated_state) = Returned
   \<and> map h_scalar (history updated_state) = [Some (Fin 0.5)]
   \<and> map h_scalar (history (snd (import_data 4 5 (export 3 updated_state) updated_state)))
        = [None]"
  by (simp add: updated_state_eq state_eval)

end
